theory Spec2Isabelle
  imports Complex_Main "HOL-Library.Word"
begin

unbundle bit_operations_syntax

section \<open>Biquad engine (include/core/native/filters.h)\<close>

text \<open>
  Samples are C \<^verbatim>\<open>float\<close>s. They are modelled as exact reals: every statement below is
  about the arithmetic the routines perform, with rounding left out. A fixed-size C array
  of floats is a function from the index to the value; every index the biquad routines use
  is a literal below the array's size.

  \<^verbatim>\<open>biquad_t\<close> holds the delay memory \<^verbatim>\<open>d[]\<close> and a union of the coefficient
  layouts \<^verbatim>\<open>x1\<close>, \<^verbatim>\<open>x2\<close>, \<^verbatim>\<open>x4\<close>. Each routine reads only its own member of the
  union, so the members are separate fields here. The pair \<^verbatim>\<open>(src, count)\<close> of a routine is
  the list of the \<^verbatim>\<open>count\<close> samples it may read; the result is the list of the values
  stored through \<^verbatim>\<open>dst\<close>, in the order of the stores, and the filter after the call.
\<close>

type_synonym farray = "nat \<Rightarrow> real"

record biquad_x1_t =
  x1_a :: farray
  x1_b :: farray

record biquad_x2_t =
  x2_a :: farray
  x2_b :: farray

record biquad_x4_t =
  x4_a0 :: farray
  x4_a1 :: farray
  x4_a2 :: farray
  x4_b1 :: farray
  x4_b2 :: farray

record biquad_t =
  bq_d :: farray
  bq_x1 :: biquad_x1_t
  bq_x2 :: biquad_x2_t
  bq_x4 :: biquad_x4_t

text \<open>\<^verbatim>\<open>f->d[k] = v\<close>\<close>

definition set_d :: "biquad_t \<Rightarrow> nat \<Rightarrow> real \<Rightarrow> biquad_t" where
  "set_d f k v = f\<lparr>bq_d := (bq_d f)(k := v)\<rparr>"

fun biquad_process_x1 :: "real list \<Rightarrow> biquad_t \<Rightarrow> real list \<times> biquad_t" where
  "biquad_process_x1 [] f = ([], f)"
| "biquad_process_x1 (s # src) f =
    (let s2 = x1_a (bq_x1 f) 0 * s + bq_d f 0;
         p1 = x1_a (bq_x1 f) 2 * s + x1_b (bq_x1 f) 0 * s2;
         p2 = x1_a (bq_x1 f) 3 * s + x1_b (bq_x1 f) 1 * s2;
         f = set_d f 0 (bq_d f 1 + p1);
         f = set_d f 1 p2;
         (dst, f) = biquad_process_x1 src f
     in (s2 # dst, f))"

text \<open>The loop "Both filters" of \<^verbatim>\<open>biquad_process_x2\<close>: \<open>r\<close> is the carry register.\<close>

fun x2_both :: "real list \<Rightarrow> real \<Rightarrow> biquad_t \<Rightarrow> real list \<times> real \<times> biquad_t" where
  "x2_both [] r f = ([], r, f)"
| "x2_both (s # src) r f =
    (let r2 = x2_a (bq_x2 f) 4 * r + bq_d f 4;
         s2 = x2_a (bq_x2 f) 0 * s + bq_d f 0;
         q1 = x2_a (bq_x2 f) 6 * r + x2_b (bq_x2 f) 4 * r2;
         p1 = x2_a (bq_x2 f) 2 * s + x2_b (bq_x2 f) 0 * s2;
         q2 = x2_a (bq_x2 f) 7 * r + x2_b (bq_x2 f) 5 * r2;
         p2 = x2_a (bq_x2 f) 3 * s + x2_b (bq_x2 f) 1 * s2;
         r = s2;
         f = set_d f 4 (bq_d f 5 + q1);
         f = set_d f 0 (bq_d f 1 + p1);
         f = set_d f 5 q2;
         f = set_d f 1 p2;
         (dst, r, f) = x2_both src r f
     in (r2 # dst, r, f))"

definition biquad_process_x2 :: "real list \<Rightarrow> biquad_t \<Rightarrow> real list \<times> biquad_t" where
  "biquad_process_x2 src0 f0 =
    (case src0 of
       [] \<Rightarrow> ([], f0)
     | s # src \<Rightarrow>
        (let f = f0;
             s2 = x2_a (bq_x2 f) 0 * s + bq_d f 0;
             p1 = x2_a (bq_x2 f) 2 * s + x2_b (bq_x2 f) 0 * s2;
             p2 = x2_a (bq_x2 f) 3 * s + x2_b (bq_x2 f) 1 * s2;
             r = s2;
             f = set_d f 0 (bq_d f 1 + p1);
             f = set_d f 1 p2;
             (dst, r, f) = x2_both src r f;
             r2 = x2_a (bq_x2 f) 4 * r + bq_d f 4;
             q1 = x2_a (bq_x2 f) 6 * r + x2_b (bq_x2 f) 4 * r2;
             q2 = x2_a (bq_x2 f) 7 * r + x2_b (bq_x2 f) 5 * r2;
             f = set_d f 4 (bq_d f 5 + q1);
             f = set_d f 5 q2
         in (dst @ [r2], f)))"

text \<open>
  The cascade of two sections in the \<^verbatim>\<open>x2\<close> layout, as the comment of the source lays it
  out (\<^verbatim>\<open>a: a0 a0 a1 a2 i0 i0 i1 i2\<close>, \<^verbatim>\<open>b: b1 b2 0 0 j1 j2 0 0\<close>): section \<open>A\<close> in
  entries 0..3 with its delay pair in \<^verbatim>\<open>d[0], d[1]\<close>, section \<open>B\<close> in entries 4..7 with its
  delay pair in \<^verbatim>\<open>d[4], d[5]\<close>.
\<close>

definition x2_cascade :: "biquad_x1_t \<Rightarrow> biquad_x1_t \<Rightarrow> biquad_x2_t" where
  "x2_cascade A B =
    \<lparr>x2_a = (\<lambda>k. if k < 4 then x1_a A k else x1_a B (k - 4)),
     x2_b = (\<lambda>k. if k < 4 then x1_b A k else x1_b B (k - 4))\<rparr>"

definition x2_delay :: "farray \<Rightarrow> farray \<Rightarrow> farray" where
  "x2_delay dA dB = (\<lambda>k. if k < 4 then dA k else dB (k - 4))"

text \<open>
  \<^verbatim>\<open>biquad_process_x4\<close>. The locals \<^verbatim>\<open>s[4]\<close>, \<^verbatim>\<open>s2[4]\<close>, \<^verbatim>\<open>mask\<close> and \<^verbatim>\<open>i\<close> are
  passed from loop to loop (\<open>msk\<close> is \<^verbatim>\<open>mask\<close>, a name HOL uses); \<^verbatim>\<open>p1[]\<close> and \<^verbatim>\<open>p2[]\<close> are written before every read. The
  source pointer advances by one with every increment of \<^verbatim>\<open>i\<close>, so \<^verbatim>\<open>*(src++)\<close> reads
  \<open>src ! i\<close>, and \<open>i < count\<close> holds at every read.
\<close>

text \<open>One lane \<open>k\<close> of the engine, as the blocks under \<^verbatim>\<open>if (mask & ...)\<close> spell it out.\<close>

definition x4_lane :: "nat \<Rightarrow> biquad_t \<Rightarrow> farray \<Rightarrow> farray \<Rightarrow> biquad_t \<times> farray" where
  "x4_lane k f s s2 =
    (let s2 = s2(k := x4_a0 (bq_x4 f) k * s k + bq_d f k);
         p1 = x4_a1 (bq_x4 f) k * s k + x4_b1 (bq_x4 f) k * s2 k;
         p2 = x4_a2 (bq_x4 f) k * s k + x4_b2 (bq_x4 f) k * s2 k;
         f = set_d f k (bq_d f (k + 4) + p1);
         f = set_d f (k + 4) p2
     in (f, s2))"

text \<open>"Shift buffer": \<^verbatim>\<open>s[3] = s2[2]; s[2] = s2[1]; s[1] = s2[0];\<close>\<close>

definition x4_shift :: "farray \<Rightarrow> farray \<Rightarrow> farray" where
  "x4_shift s s2 = s(3 := s2 2, 2 := s2 1, 1 := s2 0)"


text \<open>
  The body of the loop "Start filters" up to the update of the mask: push a sample into
  lane 0, run the lanes the mask enables, shift.
\<close>

definition x4_start_step ::
  "real \<Rightarrow> biquad_t \<Rightarrow> farray \<Rightarrow> farray \<Rightarrow> nat \<Rightarrow> biquad_t \<times> farray \<times> farray \<times> nat"
where
  "x4_start_step x f s s2 msk =
    (let s = s(0 := x);
         msk = msk OR 1;
         (f, s2) = x4_lane 0 f s s2;
         (f, s2) = (if msk AND 2 \<noteq> 0 then x4_lane 1 f s s2 else (f, s2));
         (f, s2) = (if msk AND 4 \<noteq> 0 then x4_lane 2 f s s2 else (f, s2));
         s = x4_shift s s2;
         msk = push_bit 1 msk
     in (f, s, s2, msk))"

text \<open>"Start filters": the \<^verbatim>\<open>do ... while (i < 3)\<close> loop with its \<^verbatim>\<open>break\<close>.\<close>

function x4_start ::
  "real list \<Rightarrow> biquad_t \<Rightarrow> farray \<Rightarrow> farray \<Rightarrow> nat \<Rightarrow> nat \<Rightarrow> biquad_t \<times> farray \<times> farray \<times> nat \<times> nat"
where
  "x4_start src f s s2 msk i =
    (case x4_start_step (src ! i) f s s2 msk of
       (f, s, s2, msk) \<Rightarrow>
         if i + 1 \<ge> length src then (f, s, s2, msk, i + 1)
         else if i + 1 < 3 then x4_start src f s s2 msk (i + 1)
         else (f, s, s2, msk, i + 1))"
  by pat_completeness auto
termination
  by (relation "measure (\<lambda>(src, f, s, s2, msk, i). 3 - i)") auto

text \<open>
  The body of the loop "Process all filters simultaneously": all four lanes, then the
  store \<^verbatim>\<open>*(dst++) = s2[3]\<close> (the last component of the result) and the shift.
\<close>

definition x4_main_step ::
  "real \<Rightarrow> biquad_t \<Rightarrow> farray \<Rightarrow> farray \<Rightarrow> biquad_t \<times> farray \<times> farray \<times> real"
where
  "x4_main_step x f s s2 =
    (let s = s(0 := x);
         s2 = s2(0 := x4_a0 (bq_x4 f) 0 * s 0 + bq_d f 0);
         s2 = s2(1 := x4_a0 (bq_x4 f) 1 * s 1 + bq_d f 1);
         s2 = s2(2 := x4_a0 (bq_x4 f) 2 * s 2 + bq_d f 2);
         s2 = s2(3 := x4_a0 (bq_x4 f) 3 * s 3 + bq_d f 3);
         p1 = (\<lambda>k. x4_a1 (bq_x4 f) k * s k + x4_b1 (bq_x4 f) k * s2 k);
         p2 = (\<lambda>k. x4_a2 (bq_x4 f) k * s k + x4_b2 (bq_x4 f) k * s2 k);
         f = set_d f 0 (bq_d f 4 + p1 0);
         f = set_d f 1 (bq_d f 5 + p1 1);
         f = set_d f 2 (bq_d f 6 + p1 2);
         f = set_d f 3 (bq_d f 7 + p1 3);
         f = set_d f 4 (p2 0);
         f = set_d f 5 (p2 1);
         f = set_d f 6 (p2 2);
         f = set_d f 7 (p2 3)
     in (f, x4_shift s s2, s2, s2 3))"

text \<open>"Process all filters simultaneously": \<^verbatim>\<open>while (i < count)\<close>.\<close>

function x4_main ::
  "real list \<Rightarrow> biquad_t \<Rightarrow> farray \<Rightarrow> farray \<Rightarrow> nat \<Rightarrow> real list \<Rightarrow> biquad_t \<times> farray \<times> farray \<times> real list"
where
  "x4_main src f s s2 i dst =
    (if i < length src then
       (case x4_main_step (src ! i) f s s2 of
          (f, s, s2, y) \<Rightarrow> x4_main src f s s2 (i + 1) (dst @ [y]))
     else (f, s, s2, dst))"
  by pat_completeness auto
termination
  by (relation "measure (\<lambda>(src, f, s, s2, i, dst). length src - i)") auto

text \<open>The mask update of the drain loop, \<^verbatim>\<open>mask = (mask << 1) & 0x0f\<close>.\<close>

definition x4_next_mask :: "nat \<Rightarrow> nat" where
  "x4_next_mask msk = push_bit 1 msk AND 15"

text \<open>How many more rounds of the drain loop a mask allows.\<close>

definition x4_rounds :: "nat \<Rightarrow> nat" where
  "x4_rounds msk =
    (if msk mod 16 = 0 then 0 else if msk mod 8 = 0 then 1
     else if msk mod 4 = 0 then 2 else if msk mod 2 = 0 then 3 else 4)"

lemma x4_next_mask_mod: "x4_next_mask msk = (2 * msk) mod 16"
proof -
  have "push_bit 1 msk AND 15 = take_bit 4 (push_bit 1 msk)"
    by (simp add: take_bit_eq_mask mask_eq_exp_minus_1)
  then show ?thesis
    by (simp add: x4_next_mask_def take_bit_eq_mod push_bit_eq_mult mult.commute)
qed

lemma x4_rounds_next: "x4_next_mask msk \<noteq> 0 \<Longrightarrow> x4_rounds (x4_next_mask msk) < x4_rounds msk"
  unfolding x4_next_mask_mod x4_rounds_def by presburger

text \<open>
  The body of the loop "Finish processing" up to the update of the mask: the lanes 1 and 2
  the mask enables, lane 3 always, then the store \<^verbatim>\<open>*(dst++) = s2[3]\<close> and the shift.
\<close>

definition x4_finish_step ::
  "biquad_t \<Rightarrow> farray \<Rightarrow> farray \<Rightarrow> nat \<Rightarrow> biquad_t \<times> farray \<times> farray \<times> real"
where
  "x4_finish_step f s s2 msk =
    (let (f, s2) = (if msk AND 2 \<noteq> 0 then x4_lane 1 f s s2 else (f, s2));
         (f, s2) = (if msk AND 4 \<noteq> 0 then x4_lane 2 f s s2 else (f, s2));
         (f, s2) = x4_lane 3 f s s2
     in (f, x4_shift s s2, s2, s2 3))"

text \<open>"Finish processing": the \<^verbatim>\<open>do ... while (mask != 0)\<close> loop.\<close>

function x4_finish ::
  "biquad_t \<Rightarrow> farray \<Rightarrow> farray \<Rightarrow> nat \<Rightarrow> real list \<Rightarrow> biquad_t \<times> real list"
where
  "x4_finish f s s2 msk dst =
    (case x4_finish_step f s s2 msk of
       (f, s, s2, y) \<Rightarrow>
         if x4_next_mask msk \<noteq> 0 then x4_finish f s s2 (x4_next_mask msk) (dst @ [y])
         else (f, dst @ [y]))"
  by pat_completeness auto
termination
  by (relation "measure (\<lambda>(f, s, s2, msk, dst). x4_rounds msk)") (auto simp: x4_rounds_next)

declare x4_start.simps [simp del] x4_main.simps [simp del] x4_finish.simps [simp del]

definition biquad_process_x4 :: "real list \<Rightarrow> biquad_t \<Rightarrow> real list \<times> biquad_t" where
  "biquad_process_x4 src f =
    (if length src \<le> 0 then ([], f)
     else
       (let s = (\<lambda>k. 0);
            s2 = (\<lambda>k. 0);
            (f, s, s2, msk, i) = x4_start src f s s2 0 0;
            (f, s, s2, dst) = x4_main src f s s2 i [];
            (f, dst) = x4_finish f s s2 msk dst
        in (dst, f)))"

text \<open>
  One section in transposed direct form II, as the contract of the engine writes it:
  \<open>y = a0 x + d0\<close>, \<open>d0' = d1 + a1 x + b1 y\<close>, \<open>d1' = a2 x + b2 y\<close>. The coefficients are
  \<open>(a0, a1, a2, b1, b2)\<close> and the delay pair is \<open>(d0, d1)\<close>. \<open>section_run\<close> is the
  reference the routines are compared with.
\<close>

type_synonym coefs = "real \<times> real \<times> real \<times> real \<times> real"

definition section_step :: "coefs \<Rightarrow> real \<times> real \<Rightarrow> real \<Rightarrow> real \<times> (real \<times> real)" where
  "section_step c d x =
    (case c of (a0, a1, a2, b1, b2) \<Rightarrow> case d of (d0, d1) \<Rightarrow>
      (let y = a0 * x + d0 in (y, (d1 + (a1 * x + b1 * y), a2 * x + b2 * y))))"

fun section_run :: "coefs \<Rightarrow> real \<times> real \<Rightarrow> real list \<Rightarrow> real list \<times> (real \<times> real)" where
  "section_run c d [] = ([], d)"
| "section_run c d (x # xs) =
    (let (y, d) = section_step c d x; (ys, d) = section_run c d xs in (y # ys, d))"

text \<open>The coefficients each routine reads, by the layout comments of the source.\<close>

definition x1_coefs :: "biquad_x1_t \<Rightarrow> coefs" where
  "x1_coefs A = (x1_a A 0, x1_a A 2, x1_a A 3, x1_b A 0, x1_b A 1)"

definition x2_coefs_A :: "biquad_x2_t \<Rightarrow> coefs" where
  "x2_coefs_A X = (x2_a X 0, x2_a X 2, x2_a X 3, x2_b X 0, x2_b X 1)"

definition x2_coefs_B :: "biquad_x2_t \<Rightarrow> coefs" where
  "x2_coefs_B X = (x2_a X 4, x2_a X 6, x2_a X 7, x2_b X 4, x2_b X 5)"

section \<open>Faults and memory\<close>

text \<open>
  What C leaves undefined is a fault of the model: an integer division by zero, a read or
  a write outside an allocated block (a negative count, which C converts to a huge
  \<^verbatim>\<open>size_t\<close>, included), a dereferenced null pointer, and the conversion to an integer of
  a float that has no integer value in range. A faulting call returns \<open>Inl\<close> of the fault.
\<close>

datatype fault = DivisionByZero | OutOfBounds | NullPointer | FloatConversion

definition bindE :: "fault + 'a \<Rightarrow> ('a \<Rightarrow> fault + 'b) \<Rightarrow> fault + 'b" where
  "bindE m f = (case m of Inl e \<Rightarrow> Inl e | Inr x \<Rightarrow> f x)"

text \<open>
  An allocated block of floats is the number of its cells and the float in each, and a
  pointer into it is the block and the index of the cell pointed at. \<open>rd mem p n\<close> reads
  the \<open>n\<close> cells at the pointer \<open>p\<close>, \<open>wr mem p xs\<close> stores \<open>xs\<close> there. Only the ends of
  the block bound an access: two buffers cut from one block are neighbours, and an access
  that runs past the end of the first is an access to the second. \<open>no_block\<close> is what a
  null or a released pointer points at: no cell.
\<close>

record block =
  b_size :: int
  b_cell :: "int \<Rightarrow> real"

definition no_block :: block where
  "no_block = \<lparr>b_size = 0, b_cell = (\<lambda>i. 0)\<rparr>"

definition rd :: "block \<Rightarrow> int \<Rightarrow> int \<Rightarrow> fault + real list" where
  "rd mem p n =
    (if 0 \<le> p \<and> 0 \<le> n \<and> p + n \<le> b_size mem
     then Inr (map (b_cell mem) [p..p + n - 1]) else Inl OutOfBounds)"

definition wr :: "block \<Rightarrow> int \<Rightarrow> real list \<Rightarrow> fault + block" where
  "wr mem p xs =
    (let n = int (length xs)
     in if 0 \<le> p \<and> p + n \<le> b_size mem
        then Inr (mem\<lparr>b_cell := (\<lambda>i. if p \<le> i \<and> i < p + n then xs ! nat (i - p)
                                      else b_cell mem i)\<rparr>)
        else Inl OutOfBounds)"

text \<open>
  The array a caller passes in is the list of its floats; \<open>rd_in inp x n\<close> reads the \<open>n\<close>
  floats at \<^verbatim>\<open>&in[x]\<close>.
\<close>

definition rd_in :: "real list \<Rightarrow> int \<Rightarrow> int \<Rightarrow> fault + real list" where
  "rd_in inp x n =
    (if 0 \<le> x \<and> 0 \<le> n \<and> x + n \<le> int (length inp)
     then Inr (take (nat n) (drop (nat x) inp)) else Inl OutOfBounds)"

text \<open>The \<open>n\<close> cells at a pointer, for the statements about the content of a buffer.\<close>

definition cells :: "block \<Rightarrow> int \<Rightarrow> int \<Rightarrow> real list" where
  "cells mem p n = map (b_cell mem) [p..p + n - 1]"

text \<open>
  Modelled from the spec: the vector primitives of the DSP kernel (\<^verbatim>\<open>dsp::copy\<close>,
  \<^verbatim>\<open>dsp::fill_zero\<close>, \<^verbatim>\<open>dsp::mul3\<close>, \<^verbatim>\<open>dsp::mul_k2\<close>, \<^verbatim>\<open>dsp::mix2\<close>,
  \<^verbatim>\<open>dsp::pcomplex_r2c\<close>, \<^verbatim>\<open>dsp::pcomplex_mod\<close>) are not among the sources. Each is the
  element-wise operation its name and its use say: \<open>dst[i] = src[i]\<close>, \<open>dst[i] = 0\<close>,
  \<open>dst[i] = a[i] * b[i]\<close>, \<open>dst[i] = dst[i] * k\<close>, \<open>dst[i] = dst[i] * k1 + src[i] * k2\<close>,
  \<open>dst[2i] = src[i], dst[2i+1] = 0\<close> and \<open>dst[i] = sqrt (src[2i]\<^sup>2 + src[2i+1]\<^sup>2)\<close>. Every
  pointer argument is a block and an index; the result is the destination block after
  the call. An operation reads its sources and then stores; the analyzer never hands an
  operation a destination that lies ahead of the cells it still has to read.

  The collaborators whose results are floats without a closed rational form are
  parameters of the model: the window generator \<^verbatim>\<open>windows::window(dst, n, type)\<close> and
  the envelope generator \<^verbatim>\<open>envelope::reverse_noise(dst, n, type)\<close>, each given as the
  value stored at index \<open>i\<close> for \<open>n\<close> and \<open>type\<close>; the transform
  \<^verbatim>\<open>dsp::packed_direct_fft(dst, src, rank)\<close>, given as the value stored at index \<open>i\<close>
  for the rank and the \<open>2 * 2^rank\<close> floats read; and the functions \<^verbatim>\<open>expf\<close>,
  \<^verbatim>\<open>logf\<close>, \<^verbatim>\<open>sqrtf\<close> and the constant \<^verbatim>\<open>M_SQRT1_2\<close> of the C library.
\<close>

record dsp_kernel =
  k_window :: "nat \<Rightarrow> nat \<Rightarrow> nat \<Rightarrow> real"
  k_reverse_noise :: "nat \<Rightarrow> nat \<Rightarrow> nat \<Rightarrow> real"
  k_packed_direct_fft :: "nat \<Rightarrow> real list \<Rightarrow> nat \<Rightarrow> real"
  k_expf :: "real \<Rightarrow> real"
  k_logf :: "real \<Rightarrow> real"
  k_sqrtf :: "real \<Rightarrow> real"
  k_M_SQRT1_2 :: real

definition copy :: "block \<Rightarrow> int \<Rightarrow> real list \<Rightarrow> int \<Rightarrow> int \<Rightarrow> fault + block" where
  "copy dst d src x count = bindE (rd_in src x count) (wr dst d)"

definition fill_zero :: "block \<Rightarrow> int \<Rightarrow> int \<Rightarrow> fault + block" where
  "fill_zero dst d count =
    (if count < 0 then Inl OutOfBounds else wr dst d (replicate (nat count) 0))"

definition mul3 ::
  "block \<Rightarrow> int \<Rightarrow> block \<Rightarrow> int \<Rightarrow> block \<Rightarrow> int \<Rightarrow> int \<Rightarrow> fault + block"
where
  "mul3 dst d a x b y count =
    bindE (rd a x count) (\<lambda>xs. bindE (rd b y count) (\<lambda>ys. wr dst d (map2 (*) xs ys)))"

definition mul_k2 :: "block \<Rightarrow> int \<Rightarrow> real \<Rightarrow> int \<Rightarrow> fault + block" where
  "mul_k2 dst d k count = bindE (rd dst d count) (\<lambda>xs. wr dst d (map (\<lambda>v. v * k) xs))"

definition mix2 ::
  "block \<Rightarrow> int \<Rightarrow> block \<Rightarrow> int \<Rightarrow> real \<Rightarrow> real \<Rightarrow> int \<Rightarrow> fault + block"
where
  "mix2 dst d src x k1 k2 count =
    bindE (rd dst d count) (\<lambda>xs. bindE (rd src x count) (\<lambda>ys.
      wr dst d (map2 (\<lambda>v w. v * k1 + w * k2) xs ys)))"

definition pcomplex_r2c :: "block \<Rightarrow> int \<Rightarrow> block \<Rightarrow> int \<Rightarrow> int \<Rightarrow> fault + block" where
  "pcomplex_r2c dst d src x count =
    bindE (rd src x count) (\<lambda>xs. wr dst d (concat (map (\<lambda>v. [v, 0]) xs)))"

definition pcomplex_mod ::
  "dsp_kernel \<Rightarrow> block \<Rightarrow> int \<Rightarrow> block \<Rightarrow> int \<Rightarrow> int \<Rightarrow> fault + block"
where
  "pcomplex_mod K dst d src x count =
    bindE (rd src x (2 * count)) (\<lambda>xs.
      wr dst d (map (\<lambda>i. k_sqrtf K ((xs ! (2 * i)) * (xs ! (2 * i)) +
                             (xs ! (2 * i + 1)) * (xs ! (2 * i + 1)))) [0..<nat count]))"

definition window :: "dsp_kernel \<Rightarrow> block \<Rightarrow> int \<Rightarrow> nat \<Rightarrow> nat \<Rightarrow> fault + block" where
  "window K dst d n t = wr dst d (map (k_window K n t) [0..<n])"

definition reverse_noise :: "dsp_kernel \<Rightarrow> block \<Rightarrow> int \<Rightarrow> nat \<Rightarrow> nat \<Rightarrow> fault + block" where
  "reverse_noise K dst d n t = wr dst d (map (k_reverse_noise K n t) [0..<n])"

definition packed_direct_fft ::
  "dsp_kernel \<Rightarrow> block \<Rightarrow> int \<Rightarrow> block \<Rightarrow> int \<Rightarrow> nat \<Rightarrow> fault + block"
where
  "packed_direct_fft K dst d src x rank =
    bindE (rd src x (2 * 2 ^ rank))
      (\<lambda>xs. wr dst d (map (k_packed_direct_fft K rank xs) [0..<2 * 2 ^ rank]))"

text \<open>
  The conversion of the float quotient \<open>a / b\<close> to \<^verbatim>\<open>size_t\<close>: truncation, defined when the
  truncated value is not negative (and \<open>b\<close> is not zero, or the quotient is no number).
\<close>

definition float_div_to_size :: "real \<Rightarrow> real \<Rightarrow> fault + nat" where
  "float_div_to_size a b =
    (if b = 0 \<or> a / b \<le> - 1 then Inl FloatConversion else Inr (nat \<lfloor>a / b\<rfloor>))"

section \<open>Spectrum analyzer (src/core/util/Analyzer.cpp)\<close>

text \<open>
  The class declaration (\<^verbatim>\<open>Analyzer.h\<close>) is not among the sources. The fields are the ones
  the constructor initialises. The index and counter fields the processing loop computes
  with in \<^verbatim>\<open>ssize_t\<close> are integers; no value reaches the range of the machine type, so
  the arithmetic is the mathematical one. The array \<^verbatim>\<open>vChannels\<close> is a function from
  the index to the channel (every access is below \<^verbatim>\<open>nChannels\<close>, the size it is
  allocated with), \<open>None\<close> when the pointer is null.

  \<^verbatim>\<open>vData\<close> is the one block \<open>init\<close> allocates, \<open>no_block\<close> when there is none. The
  pointers \<^verbatim>\<open>vSigRe\<close>, \<^verbatim>\<open>vFftReIm\<close>, \<^verbatim>\<open>vWindow\<close>, \<^verbatim>\<open>vEnvelope\<close> and, in a channel,
  \<^verbatim>\<open>vBuffer\<close> and \<^verbatim>\<open>vAmp\<close> are indices into that block, as \<open>init\<close> cuts it; a null
  pointer is the index 0 of \<open>no_block\<close>, so that any access through it is a fault.

  Modelled from the spec: the reconfiguration bits \<^verbatim>\<open>R_ENVELOPE\<close>, \<^verbatim>\<open>R_WINDOW\<close>,
  \<^verbatim>\<open>R_ANALYSIS\<close>, \<^verbatim>\<open>R_TAU\<close>, \<^verbatim>\<open>R_COUNTERS\<close> are declared in the missing header;
  \<^verbatim>\<open>nReconfigure\<close> is the set of the bits that are set and \<^verbatim>\<open>R_ALL\<close> is all of them.
\<close>

datatype reconfigure_t = R_ENVELOPE | R_WINDOW | R_ANALYSIS | R_TAU | R_COUNTERS

definition R_ALL :: "reconfigure_t set" where
  "R_ALL = {R_ENVELOPE, R_WINDOW, R_ANALYSIS, R_TAU, R_COUNTERS}"

record channel_t =
  vBuffer :: int
  vAmp :: int
  nCounter :: int
  nHead :: int
  nDelay :: int
  bFreeze :: bool
  ch_bActive :: bool

record Analyzer =
  nChannels :: nat
  nMaxRank :: nat
  nRank :: nat
  nSampleRate :: nat
  nMaxSampleRate :: nat
  nBufSize :: int
  nFftPeriod :: int
  fReactivity :: real
  fTau :: real
  fRate :: real
  fMinRate :: real
  fShift :: real
  nReconfigure :: "reconfigure_t set"
  nEnvelope :: nat
  nWindow :: nat
  bActive :: bool
  vChannels :: "(nat \<Rightarrow> channel_t) option"
  vData :: block
  vSigRe :: int
  vFftReIm :: int
  vWindow :: int
  vEnvelope :: int

text \<open>
  \<^verbatim>\<open>Analyzer::construct\<close>. The selectors \<^verbatim>\<open>envelope::PINK_NOISE\<close> and \<^verbatim>\<open>windows::HANN\<close>
  are enumeration values of missing headers, taken as parameters.
\<close>

definition construct :: "nat \<Rightarrow> nat \<Rightarrow> Analyzer" where
  "construct PINK_NOISE HANN =
    \<lparr>nChannels = 0, nMaxRank = 0, nRank = 0, nSampleRate = 0, nMaxSampleRate = 0,
     nBufSize = 0, nFftPeriod = 0, fReactivity = 0, fTau = 1, fRate = 1, fMinRate = 1,
     fShift = 1, nReconfigure = {}, nEnvelope = PINK_NOISE, nWindow = HANN, bActive = True,
     vChannels = None, vData = no_block, vSigRe = 0, vFftReIm = 0, vWindow = 0, vEnvelope = 0\<rparr>"

text \<open>
  \<^verbatim>\<open>Analyzer::destroy\<close>: the channel array and the data block are released. The four
  pointers into the block are left as they are; the released block has no cell that may
  be accessed.
\<close>

definition destroy :: "Analyzer \<Rightarrow> Analyzer" where
  "destroy a = a\<lparr>vChannels := None, vData := no_block\<rparr>"

text \<open>
  Modelled from the spec: the macro \<^verbatim>\<open>ALIGN_SIZE(x, align)\<close> is not among the sources; it
  rounds \<open>x\<close> up to a multiple of \<open>align\<close>. The value of \<^verbatim>\<open>DEFAULT_ALIGN\<close> is a parameter
  of \<open>init\<close>.
\<close>

definition ALIGN_SIZE :: "nat \<Rightarrow> nat \<Rightarrow> nat" where
  "ALIGN_SIZE x align = ((x + align - 1) div align) * align"

text \<open>
  \<^verbatim>\<open>Analyzer::init\<close>. \<open>alloc_ok\<close> says whether the two allocations succeed; the result is
  the returned flag and the analyzer after the call. The block of
  \<open>5 * fft_size + channels * nBufSize + channels * fft_size\<close> floats is cleared with
  \<^verbatim>\<open>fill_zero\<close> and cut in the order of the source: \<^verbatim>\<open>vSigRe\<close> (\<open>fft_size\<close> floats),
  \<^verbatim>\<open>vFftReIm\<close> (\<open>2 * fft_size\<close>), \<^verbatim>\<open>vWindow\<close>, \<^verbatim>\<open>vEnvelope\<close> (\<open>fft_size\<close> each), and
  then for each channel its \<^verbatim>\<open>vBuffer\<close> (\<^verbatim>\<open>nBufSize\<close> floats) followed by its \<^verbatim>\<open>vAmp\<close>
  (\<open>fft_size\<close>). When the loop over the channels reaches channel \<open>i\<close>, the pointer
  \<^verbatim>\<open>abuf\<close> has been advanced by \<open>5 * fft_size\<close> and \<open>i\<close> times by \<open>nBufSize + fft_size\<close>.
\<close>

definition init ::
  "nat \<Rightarrow> bool \<Rightarrow> Analyzer \<Rightarrow> nat \<Rightarrow> nat \<Rightarrow> nat \<Rightarrow> real \<Rightarrow> fault + (bool \<times> Analyzer)"
where
  "init DEFAULT_ALIGN alloc_ok a0 channels max_rank max_sr min_rate =
    (let a = destroy a0;
         fft_size = (2::int) ^ max_rank
     in bindE (float_div_to_size (real max_sr) min_rate) (\<lambda>q.
        let a = a\<lparr>nBufSize := int (ALIGN_SIZE (max_rank * 2 + q) DEFAULT_ALIGN)\<rparr>;
            allocate = 5 * fft_size + int channels * nBufSize a + int channels * fft_size
        in if \<not> alloc_ok then Inr (False, a)
        else
          Inr (True,
            a\<lparr>nChannels := channels, nMaxRank := max_rank, nMaxSampleRate := max_sr,
              nRank := max_rank, fMinRate := min_rate,
              vData := \<lparr>b_size = allocate, b_cell = (\<lambda>i. 0)\<rparr>,
              vSigRe := 0,
              vFftReIm := fft_size,
              vWindow := 3 * fft_size,
              vEnvelope := 4 * fft_size,
              vChannels := Some (\<lambda>i.
                \<lparr>vBuffer = 5 * fft_size + int i * (nBufSize a + fft_size),
                 vAmp = 5 * fft_size + int i * (nBufSize a + fft_size) + nBufSize a,
                 nCounter = 0, nHead = 0, nDelay = 0, bFreeze = False, ch_bActive = True\<rparr>),
              nReconfigure := R_ALL\<rparr>)))"

definition set_sample_rate :: "Analyzer \<Rightarrow> nat \<Rightarrow> Analyzer" where
  "set_sample_rate a sr0 =
    (let sr = min sr0 (nMaxSampleRate a)
     in if nSampleRate a = sr then a
        else a\<lparr>nSampleRate := sr, nReconfigure := nReconfigure a \<union> R_ALL\<rparr>)"

definition set_rate :: "Analyzer \<Rightarrow> real \<Rightarrow> Analyzer" where
  "set_rate a rate0 =
    (let rate = max (fMinRate a) rate0
     in if fRate a = rate then a
        else a\<lparr>fRate := rate, nReconfigure := nReconfigure a \<union> {R_COUNTERS}\<rparr>)"

definition set_window :: "Analyzer \<Rightarrow> nat \<Rightarrow> Analyzer" where
  "set_window a w =
    (if nWindow a = w then a
     else a\<lparr>nWindow := w, nReconfigure := nReconfigure a \<union> {R_WINDOW}\<rparr>)"

definition set_envelope :: "Analyzer \<Rightarrow> nat \<Rightarrow> Analyzer" where
  "set_envelope a e =
    (if nEnvelope a = e then a
     else a\<lparr>nEnvelope := e, nReconfigure := nReconfigure a \<union> {R_ENVELOPE}\<rparr>)"

definition set_shift :: "Analyzer \<Rightarrow> real \<Rightarrow> Analyzer" where
  "set_shift a shift =
    (if fShift a = shift then a
     else a\<lparr>fShift := shift, nReconfigure := nReconfigure a \<union> {R_ENVELOPE}\<rparr>)"

definition set_reactivity :: "Analyzer \<Rightarrow> real \<Rightarrow> Analyzer" where
  "set_reactivity a reactivity =
    (if fReactivity a = reactivity then a
     else a\<lparr>fReactivity := reactivity, nReconfigure := nReconfigure a \<union> {R_TAU}\<rparr>)"

definition set_rank :: "Analyzer \<Rightarrow> nat \<Rightarrow> bool \<times> Analyzer" where
  "set_rank a rank =
    (if rank < 2 \<or> rank > nMaxRank a then (False, a)
     else if nRank a = rank then (True, a)
     else (True, a\<lparr>nRank := rank, nReconfigure := nReconfigure a \<union> R_ALL\<rparr>))"

definition freeze_channel :: "Analyzer \<Rightarrow> nat \<Rightarrow> bool \<Rightarrow> fault + (bool \<times> Analyzer)" where
  "freeze_channel a channel freeze =
    (if channel \<ge> nChannels a then Inr (False, a)
     else case vChannels a of
       None \<Rightarrow> Inl NullPointer
     | Some chs \<Rightarrow>
         Inr (True, a\<lparr>vChannels := Some (chs(channel := (chs channel)\<lparr>bFreeze := freeze\<rparr>))\<rparr>))"

definition enable_channel :: "Analyzer \<Rightarrow> nat \<Rightarrow> bool \<Rightarrow> fault + (bool \<times> Analyzer)" where
  "enable_channel a channel enable =
    (if channel \<ge> nChannels a then Inr (False, a)
     else case vChannels a of
       None \<Rightarrow> Inl NullPointer
     | Some chs \<Rightarrow>
         Inr (True, a\<lparr>vChannels := Some (chs(channel := (chs channel)\<lparr>ch_bActive := enable\<rparr>))\<rparr>))"

text \<open>
  A loop \<^verbatim>\<open>for (size_t i=0; i<nChannels; ++i)\<close> over the channels whose body changes the
  channel.
\<close>

fun for_channels ::
  "(nat \<Rightarrow> channel_t \<Rightarrow> fault + channel_t) \<Rightarrow> nat list \<Rightarrow> (nat \<Rightarrow> channel_t) \<Rightarrow> fault + (nat \<Rightarrow> channel_t)"
where
  "for_channels body [] chs = Inr chs"
| "for_channels body (i # ix) chs = bindE (body i (chs i)) (\<lambda>c. for_channels body ix (chs(i := c)))"

text \<open>The channel array is dereferenced as soon as a loop over the channels has a round.\<close>

definition each_channel ::
  "Analyzer \<Rightarrow> (nat \<Rightarrow> channel_t \<Rightarrow> fault + channel_t) \<Rightarrow> fault + Analyzer"
where
  "each_channel a body =
    (if nChannels a = 0 then Inr a
     else case vChannels a of
       None \<Rightarrow> Inl NullPointer
     | Some chs \<Rightarrow>
         bindE (for_channels body [0..<nChannels a] chs) (\<lambda>chs. Inr (a\<lparr>vChannels := Some chs\<rparr>)))"

text \<open>
  Modelled from the spec: \<^verbatim>\<open>seconds_to_samples\<close> is an inline function of a missing
  header; the number of samples is the rate times the time.
\<close>

definition seconds_to_samples :: "real \<Rightarrow> real \<Rightarrow> real" where
  "seconds_to_samples sr time = time * sr"

text \<open>"Get step aligned to 4-sample boundary": \<^verbatim>\<open>step = fft_size / nChannels; step = step - (step & 0x3)\<close>.\<close>

definition counter_step :: "nat \<Rightarrow> nat \<Rightarrow> nat" where
  "counter_step fft_size channels =
    (let step = fft_size div channels in step - (step AND 3))"

text \<open>
  \<^verbatim>\<open>Analyzer::reconfigure\<close>, block by block under the comments of the source: "Update
  envelope", "Clear analysis", "Update window", "Update reactivity", "Update counters".
  Each block runs when its bit is set. \<open>fft_size\<close> is \<^verbatim>\<open>1 << nRank\<close>.
\<close>

definition update_envelope :: "dsp_kernel \<Rightarrow> nat \<Rightarrow> Analyzer \<Rightarrow> fault + Analyzer" where
  "update_envelope K fft_size a =
    (if R_ENVELOPE \<in> nReconfigure a then
       bindE (reverse_noise K (vData a) (vEnvelope a) fft_size (nEnvelope a)) (\<lambda>mem.
       bindE (mul_k2 mem (vEnvelope a) (fShift a / real fft_size) (int fft_size)) (\<lambda>mem.
       Inr (a\<lparr>vData := mem\<rparr>)))
     else Inr a)"

text \<open>
  The loop of "Clear analysis", \<^verbatim>\<open>dsp::fill_zero(vChannels[i].vAmp, fft_size)\<close> for each
  channel in turn.
\<close>

fun clear_amps :: "(nat \<Rightarrow> channel_t) \<Rightarrow> int \<Rightarrow> nat list \<Rightarrow> block \<Rightarrow> fault + block" where
  "clear_amps chs fft_size [] mem = Inr mem"
| "clear_amps chs fft_size (i # ix) mem =
    bindE (fill_zero mem (vAmp (chs i)) fft_size) (clear_amps chs fft_size ix)"

definition clear_analysis :: "nat \<Rightarrow> Analyzer \<Rightarrow> fault + Analyzer" where
  "clear_analysis fft_size a =
    (if R_ANALYSIS \<in> nReconfigure a then
       if nChannels a = 0 then Inr a
       else case vChannels a of
         None \<Rightarrow> Inl NullPointer
       | Some chs \<Rightarrow>
           bindE (clear_amps chs (int fft_size) [0..<nChannels a] (vData a)) (\<lambda>mem.
           Inr (a\<lparr>vData := mem\<rparr>))
     else Inr a)"

definition update_window :: "dsp_kernel \<Rightarrow> nat \<Rightarrow> Analyzer \<Rightarrow> fault + Analyzer" where
  "update_window K fft_size a =
    (if R_WINDOW \<in> nReconfigure a then
       bindE (window K (vData a) (vWindow a) fft_size (nWindow a)) (\<lambda>mem. Inr (a\<lparr>vData := mem\<rparr>))
     else Inr a)"

definition update_reactivity :: "dsp_kernel \<Rightarrow> Analyzer \<Rightarrow> Analyzer" where
  "update_reactivity K a =
    (if R_TAU \<in> nReconfigure a then
       a\<lparr>fTau := 1 - k_expf K (k_logf K (1 - k_M_SQRT1_2 K) /
           seconds_to_samples (real (nSampleRate a) / real_of_int (nFftPeriod a))
             (fReactivity a))\<rparr>
     else a)"

definition update_counters :: "nat \<Rightarrow> Analyzer \<Rightarrow> fault + Analyzer" where
  "update_counters fft_size a =
    (if R_COUNTERS \<in> nReconfigure a then
       if nChannels a = 0 then Inl DivisionByZero
       else
         let step = counter_step fft_size (nChannels a) in
         each_channel a (\<lambda>i c.
           let delay = i * step in Inr (c\<lparr>nCounter := int delay, nDelay := int delay\<rparr>))
     else Inr a)"

definition reconfigure :: "dsp_kernel \<Rightarrow> Analyzer \<Rightarrow> fault + Analyzer" where
  "reconfigure K a =
    (if nReconfigure a = {} then Inr a
     else
       let fft_size = (2::nat) ^ nRank a in
       bindE (float_div_to_size (real (nSampleRate a)) (fRate a)) (\<lambda>period.
       bindE (update_envelope K fft_size (a\<lparr>nFftPeriod := int period\<rparr>)) (\<lambda>a.
       bindE (clear_analysis fft_size a) (\<lambda>a.
       bindE (update_window K fft_size a) (\<lambda>a.
       bindE (update_counters fft_size (update_reactivity K a)) (\<lambda>a.
       Inr (a\<lparr>nReconfigure := {}\<rparr>)))))))"

text \<open>
  \<^verbatim>\<open>Analyzer::process\<close>, the branch of a due FFT for a channel that is not frozen while
  the analyzer and the channel are active, up to the transform: "Get the time mark to
  start from", "Prepare the real buffer", "Apply window to the temporary buffer". The
  result is the block, in which \<^verbatim>\<open>vSigRe\<close> holds what \<^verbatim>\<open>dsp::pcomplex_r2c\<close> reads next.
\<close>

definition process_prepare :: "Analyzer \<Rightarrow> channel_t \<Rightarrow> fault + block" where
  "process_prepare a c =
    (let fft_size = (2::int) ^ nRank a;
         offset = nHead c - nDelay c;
         offset = (if offset < 0 then offset + nBufSize a else offset);
         count = nBufSize a - offset;
         mem = vData a
     in bindE
          (if count < fft_size then
             bindE (mul3 mem (vSigRe a) mem (vBuffer c + offset) mem (vWindow a) count) (\<lambda>mem.
               mul3 mem (vSigRe a + count) mem (vBuffer c) mem (vWindow a + count) (fft_size - count))
           else mul3 mem (vSigRe a) mem (vBuffer c + offset) mem (vWindow a) fft_size)
          (\<lambda>mem. mul3 mem (vSigRe a) mem (vBuffer c) mem (vWindow a) fft_size))"

text \<open>The rest of that branch: the transform, the magnitudes and the mix into \<^verbatim>\<open>vAmp\<close>.\<close>

definition process_fft :: "dsp_kernel \<Rightarrow> Analyzer \<Rightarrow> channel_t \<Rightarrow> fault + Analyzer" where
  "process_fft K a c =
    (let fft_size = (2::int) ^ nRank a;
         fft_csize = (fft_size div 2) + 1
     in bindE (process_prepare a c) (\<lambda>mem.
        bindE (pcomplex_r2c mem (vFftReIm a) mem (vSigRe a) fft_size) (\<lambda>mem.
        bindE (packed_direct_fft K mem (vFftReIm a) mem (vFftReIm a) (nRank a)) (\<lambda>mem.
        bindE (pcomplex_mod K mem (vFftReIm a) mem (vFftReIm a) fft_csize) (\<lambda>mem.
        bindE (mix2 mem (vAmp c) mem (vFftReIm a) (1 - fTau a) (fTau a) fft_csize) (\<lambda>mem.
        Inr (a\<lparr>vData := mem\<rparr>)))))))"

text \<open>
  One round of the loop \<^verbatim>\<open>while (samples > 0)\<close> of \<^verbatim>\<open>Analyzer::process\<close>. The pair
  \<^verbatim>\<open>(in, samples)\<close> is the list \<open>inp\<close> of the samples still to be read; the result is the
  analyzer and the samples left.
\<close>

definition process_round ::
  "dsp_kernel \<Rightarrow> nat \<Rightarrow> Analyzer \<Rightarrow> real list \<Rightarrow> fault + (Analyzer \<times> real list)"
where
  "process_round K channel a inp =
    (case vChannels a of
       None \<Rightarrow> Inl NullPointer
     | Some chs \<Rightarrow>
        (let c = chs channel;
             fft_size = (2::int) ^ nRank a;
             samples = int (length inp);
             to_process = nFftPeriod a - nCounter c
         in if to_process \<le> 0 then
              bindE
                (if \<not> bFreeze c then
                   (if bActive a \<and> ch_bActive c then process_fft K a c
                    else bindE (fill_zero (vData a) (vAmp c) fft_size) (\<lambda>mem. Inr (a\<lparr>vData := mem\<rparr>)))
                 else Inr a)
                (\<lambda>a.
                   let c = c\<lparr>nCounter := nCounter c - nFftPeriod a\<rparr>
                   in Inr (a\<lparr>vChannels := Some (chs(channel := c))\<rparr>, inp))
            else
              (let to_process = (if to_process > samples then samples else to_process);
                   to_process = (if to_process > fft_size then fft_size else to_process);
                   count = nBufSize a - nHead c
               in bindE
                    (if count < to_process then
                       bindE (copy (vData a) (vBuffer c + nHead c) inp 0 count) (\<lambda>mem.
                       bindE (copy mem (vBuffer c) inp count (to_process - count)) (\<lambda>mem.
                       Inr (mem, c\<lparr>nHead := to_process - count\<rparr>)))
                     else
                       bindE (copy (vData a) (vBuffer c + nHead c) inp 0 to_process) (\<lambda>mem.
                       Inr (mem, c\<lparr>nHead := nHead c + to_process\<rparr>)))
                    (\<lambda>(mem, c).
                       let c = c\<lparr>nCounter := nCounter c + to_process\<rparr>
                       in Inr (a\<lparr>vData := mem, vChannels := Some (chs(channel := c))\<rparr>,
                               drop (nat to_process) inp)))))"

text \<open>
  The loop itself. It need not end, so the result is an option: \<open>None\<close> when the loop
  runs forever, \<open>Some\<close> of the fault or of the analyzer after the loop otherwise.
\<close>

partial_function (option) process_loop ::
  "dsp_kernel \<Rightarrow> nat \<Rightarrow> Analyzer \<Rightarrow> real list \<Rightarrow> (fault + Analyzer) option"
where
  "process_loop K channel a inp =
    (if length inp > 0 then
       (case process_round K channel a inp of
          Inl e \<Rightarrow> Some (Inl e)
        | Inr (a', inp') \<Rightarrow> process_loop K channel a' inp')
     else Some (Inr a))"

declare process_loop.simps [code]

text \<open>\<^verbatim>\<open>Analyzer::process(channel, in, samples)\<close>, with \<open>inp\<close> the \<open>samples\<close> floats at \<^verbatim>\<open>in\<close>.\<close>

definition process :: "dsp_kernel \<Rightarrow> Analyzer \<Rightarrow> nat \<Rightarrow> real list \<Rightarrow> (fault + Analyzer) option" where
  "process K a channel inp =
    (if vChannels a = None \<or> channel \<ge> nChannels a then Some (Inr a)
     else case reconfigure K a of
       Inl e \<Rightarrow> Some (Inl e)
     | Inr a \<Rightarrow> process_loop K channel a inp)"

text \<open>A sequence of calls of \<^verbatim>\<open>process\<close> for one channel, one block of samples per call.\<close>

fun process_blocks ::
  "dsp_kernel \<Rightarrow> Analyzer \<Rightarrow> nat \<Rightarrow> real list list \<Rightarrow> (fault + Analyzer) option"
where
  "process_blocks K a channel [] = Some (Inr a)"
| "process_blocks K a channel (b # bs) =
    (case process K a channel b of
       Some (Inr a') \<Rightarrow> process_blocks K a' channel bs
     | r \<Rightarrow> r)"

text \<open>The analyzer a successful call of \<open>init\<close> leaves.\<close>

definition started :: "fault + (bool \<times> Analyzer) \<Rightarrow> Analyzer" where
  "started r = (case r of Inr (ok, a) \<Rightarrow> a | Inl e \<Rightarrow> construct 0 0)"

text \<open>
  The signal the specification hands to the transform, in its words: the \<open>N = 2^R\<close>
  samples of the ring starting at \<open>(head - delay) mod B\<close>, multiplied by the window. The
  ring is the \<open>B\<close> cells at \<^verbatim>\<open>vBuffer\<close>, the window the \<open>N\<close> cells at \<^verbatim>\<open>vWindow\<close>.
\<close>

definition ring_window :: "real list \<Rightarrow> int \<Rightarrow> int \<Rightarrow> nat \<Rightarrow> real list" where
  "ring_window buf B start n = map (\<lambda>i. buf ! nat ((start + int i) mod B)) [0..<n]"

definition spec_fft_signal :: "Analyzer \<Rightarrow> channel_t \<Rightarrow> real list" where
  "spec_fft_signal a c =
    map2 (*)
      (ring_window (cells (vData a) (vBuffer c) (nBufSize a)) (nBufSize a)
         ((nHead c - nDelay c) mod nBufSize a) (2 ^ nRank a))
      (cells (vData a) (vWindow a) (2 ^ nRank a))"

text \<open>
  A kernel for the examples: a rectangular window, a flat envelope, and stand-ins for the
  transform and the functions of the C library, none of which an example depends on.
\<close>

definition example_kernel :: dsp_kernel where
  "example_kernel =
    \<lparr>k_window = (\<lambda>n t i. 1), k_reverse_noise = (\<lambda>n t i. 1),
     k_packed_direct_fft = (\<lambda>r xs i. xs ! i), k_expf = (\<lambda>x. 0), k_logf = (\<lambda>x. 0),
     k_sqrtf = (\<lambda>x. x), k_M_SQRT1_2 = 7 / 10\<rparr>"

text \<open>
  The states of the example of a call that never returns: one channel, rank 2, a ring of
  16 cells, an FFT period of 0, the block of 40 floats as \<open>init\<close> cuts it, channel 0 at the
  start of its ring with its counter at 0.
\<close>

definition spinning :: "Analyzer set" where
  "spinning = {a. nRank a = 2 \<and> nBufSize a = 16 \<and> nFftPeriod a = 0 \<and>
     b_size (vData a) = 40 \<and> vSigRe a = 0 \<and> vFftReIm a = 4 \<and> vWindow a = 12 \<and>
     (\<exists>chs. vChannels a = Some chs \<and> nCounter (chs 0) = 0 \<and> nHead (chs 0) = 0 \<and>
        nDelay (chs 0) = 0 \<and> vBuffer (chs 0) = 20 \<and> vAmp (chs 0) = 36)}"

section \<open>Oscilloscope (src/core/util/Oscilloscope.cpp)\<close>

text \<open>
  The class declaration (\<^verbatim>\<open>Oscilloscope.h\<close>) is not among the sources; the fields are the
  ones the constructor initialises. A \<^verbatim>\<open>size_t\<close> is a 64-bit word, so that sums,
  differences and products wrap as the machine's do and \<open><\<close>, \<open>div\<close> and \<open>mod\<close> are the
  unsigned ones. The two sample rates are integers. The capture ring and the sweep buffer
  are functions from the index, an integer, to the float, \<open>None\<close> while the pointer is null; every copy
  checks its bounds against the sizes the source allocates. Names that the analyzer also
  uses carry the prefix \<open>osc_\<close>, and the two \<^verbatim>\<open>nHead\<close> fields are \<open>sweep_nHead\<close> and
  \<open>buffer_nHead\<close>.

  Modelled from the spec: the enumerations of the missing headers, with the values the
  specification lists.
\<close>

type_synonym size_t = "64 word"

definition CAPTURE_BUFFER_LIMIT_SIZE :: size_t where
  "CAPTURE_BUFFER_LIMIT_SIZE = 196608"

definition SWEEP_BUFFER_LIMIT_SIZE :: size_t where
  "SWEEP_BUFFER_LIMIT_SIZE = 196608"

datatype trg_type_t =
  TRG_TYPE_NONE | TRG_TYPE_SIMPLE_RISING_EDGE | TRG_TYPE_SIMPLE_FALLING_EDGE
  | TRG_TYPE_ADVANCED_RISING_EDGE | TRG_TYPE_ADVANCED_FALLING_EDGE

datatype trg_state_t = TRG_STATE_IDLE | TRG_STATE_WAITING | TRG_STATE_FIRED | TRG_STATE_COMPLETE

datatype osc_state_t = OSC_STATE_ACQUIRING | OSC_STATE_SWEEPING

datatype osc_output_mode_t = OSC_OUTPUT_MODE_MUTED | OSC_OUTPUT_MODE_COPY

datatype over_mode_t = OM_NONE | OM_2X | OM_3X | OM_4X | OM_6X | OM_8X

record sweep_params_t =
  fPreTrigger :: real
  fPostTrigger :: real
  nPreTrigger :: size_t
  nPostTrigger :: size_t
  fVertOffset :: real
  fHorOffset :: real
  nLimit :: size_t
  sweep_nHead :: size_t
  bSweepComplete :: bool

record buffer_params_t =
  buffer_nHead :: size_t
  nTriggerAt :: size_t

record ('t, 'o) Oscilloscope =
  osc_nSampleRate :: int
  nOverSampleRate :: int
  enTriggerType :: trg_type_t
  enState :: osc_state_t
  sSweepParams :: sweep_params_t
  sBufferParams :: buffer_params_t
  enOverMode :: over_mode_t
  nOversampling :: size_t
  enOutputMode :: osc_output_mode_t
  vCaptureBuffer :: "(int \<Rightarrow> real) option"
  vSweepBuffer :: "(int \<Rightarrow> real) option"
  bSync :: bool
  sOver :: 'o
  sTrigger :: 't

text \<open>
  The collaborators are parameters of the model, over the types \<open>'t\<close> of the trigger's
  state and \<open>'o\<close> of the oversampler's: \<^verbatim>\<open>Trigger::single_sample_processor\<close> and
  \<^verbatim>\<open>Trigger::get_trigger_state\<close>; the three calls \<^verbatim>\<open>set_post_trigger_samples\<close>,
  \<^verbatim>\<open>set_trigger_type\<close>, \<^verbatim>\<open>update_settings\<close> on the trigger as one function; the calls
  \<^verbatim>\<open>set_sample_rate\<close>, \<^verbatim>\<open>set_mode\<close> and, if modified, \<^verbatim>\<open>update_settings\<close> on the
  oversampler as one function; \<^verbatim>\<open>Oversampler::get_oversampling\<close>; and
  \<^verbatim>\<open>Oversampler::upsample(dst, src, n)\<close>, as the oversampler after the call and the
  samples it stores at \<^verbatim>\<open>dst\<close> for the \<open>n\<close> samples read at \<^verbatim>\<open>src\<close>.
\<close>

record ('t, 'o) collaborators =
  single_sample_processor :: "'t \<Rightarrow> real \<Rightarrow> 't"
  get_trigger_state :: "'t \<Rightarrow> trg_state_t"
  trigger_settings :: "'t \<Rightarrow> size_t \<Rightarrow> trg_type_t \<Rightarrow> 't"
  over_settings :: "'o \<Rightarrow> int \<Rightarrow> over_mode_t \<Rightarrow> 'o"
  get_oversampling :: "'o \<Rightarrow> size_t"
  upsample :: "'o \<Rightarrow> real list \<Rightarrow> 'o \<times> real list"

text \<open>\<^verbatim>\<open>Oscilloscope::Oscilloscope\<close>, given the collaborators as they are constructed.\<close>

definition osc_construct :: "'t \<Rightarrow> 'o \<Rightarrow> ('t, 'o) Oscilloscope" where
  "osc_construct t0 o0 =
    \<lparr>osc_nSampleRate = - 1, nOverSampleRate = - 1, enTriggerType = TRG_TYPE_NONE,
     enState = OSC_STATE_ACQUIRING,
     sSweepParams =
       \<lparr>fPreTrigger = 0, fPostTrigger = 0, nPreTrigger = 0, nPostTrigger = 0,
        fVertOffset = 0, fHorOffset = 0, nLimit = 0, sweep_nHead = 0, bSweepComplete = False\<rparr>,
     sBufferParams = \<lparr>buffer_nHead = 0, nTriggerAt = 0\<rparr>,
     enOverMode = OM_NONE, nOversampling = 0, enOutputMode = OSC_OUTPUT_MODE_MUTED,
     vCaptureBuffer = None, vSweepBuffer = None, bSync = True, sOver = o0, sTrigger = t0\<rparr>"

text \<open>
  \<^verbatim>\<open>Oscilloscope::init\<close>: \<open>alloc\<close> is the content of the two buffers when the allocation
  succeeds (the block is not cleared), \<open>None\<close> when it fails; \<open>ready\<close> is the value of
  \<^verbatim>\<open>sOver.init() && sTrigger.init()\<close>.
\<close>

definition osc_init ::
  "((int \<Rightarrow> real) \<times> (int \<Rightarrow> real)) option \<Rightarrow> bool \<Rightarrow> ('t, 'o) Oscilloscope \<Rightarrow> bool \<times> ('t, 'o) Oscilloscope"
where
  "osc_init alloc ready osc =
    (case alloc of
       None \<Rightarrow> (False, osc)
     | Some (cap, swp) \<Rightarrow> (ready, osc\<lparr>vCaptureBuffer := Some cap, vSweepBuffer := Some swp\<rparr>))"

text \<open>
  The conversion of a float to \<^verbatim>\<open>size_t\<close>: truncation toward zero, defined when the
  truncated value is in the range of the type.
\<close>

definition float_to_size :: "real \<Rightarrow> fault + size_t" where
  "float_to_size x =
    (if x \<le> - 1 \<or> 2 ^ 64 \<le> x then Inl FloatConversion
     else Inr (of_int (if x < 0 then \<lceil>x\<rceil> else \<lfloor>x\<rfloor>)))"

text \<open>
  Modelled from the spec: \<^verbatim>\<open>samples_to_seconds\<close> is an inline function of a missing
  header, the inverse of \<^verbatim>\<open>seconds_to_samples\<close>.
\<close>

definition samples_to_seconds :: "real \<Rightarrow> real \<Rightarrow> real" where
  "samples_to_seconds sr samples = samples / sr"

text \<open>\<^verbatim>\<open>Oscilloscope::update_settings\<close>.\<close>

definition osc_update_settings ::
  "('t, 'o) collaborators \<Rightarrow> ('t, 'o) Oscilloscope \<Rightarrow> fault + ('t, 'o) Oscilloscope"
where
  "osc_update_settings K osc =
    (if \<not> bSync osc then Inr osc
     else
       let over = over_settings K (sOver osc) (osc_nSampleRate osc) (enOverMode osc);
           m = get_oversampling K over;
           osr = uint m * osc_nSampleRate osc;
           minBufSize = (if CAPTURE_BUFFER_LIMIT_SIZE < SWEEP_BUFFER_LIMIT_SIZE
                         then CAPTURE_BUFFER_LIMIT_SIZE else SWEEP_BUFFER_LIMIT_SIZE);
           sp = sSweepParams osc
       in bindE (float_to_size (seconds_to_samples (real_of_int osr) (fPreTrigger sp))) (\<lambda>pre.
          let pre = (if pre < minBufSize then pre else minBufSize);
              sp = sp\<lparr>nPreTrigger := pre,
                      fPreTrigger := samples_to_seconds (real_of_int osr) (real_of_int (uint pre))\<rparr>;
              availableForPost = SWEEP_BUFFER_LIMIT_SIZE - nPreTrigger sp
          in bindE (float_to_size (seconds_to_samples (real_of_int osr) (fPostTrigger sp))) (\<lambda>post.
             let post = (if post < availableForPost then post else availableForPost);
                 sp = sp\<lparr>nPostTrigger := post,
                         fPostTrigger := samples_to_seconds (real_of_int osr) (real_of_int (uint post))\<rparr>;
                 sp = sp\<lparr>nLimit := nPreTrigger sp + nPostTrigger sp, sweep_nHead := 0,
                         bSweepComplete := False\<rparr>
             in Inr (osc\<lparr>sOver := over, nOversampling := m, nOverSampleRate := osr,
                         sSweepParams := sp,
                         sBufferParams := \<lparr>buffer_nHead = 0, nTriggerAt = 0\<rparr>,
                         sTrigger := trigger_settings K (sTrigger osc) (nPostTrigger sp)
                                       (enTriggerType osc),
                         bSync := False\<rparr>))))"

text \<open>
  \<^verbatim>\<open>dsp::copy(&dst[d], &src[x], count)\<close> between two buffers of the sizes \<open>dsize\<close> and
  \<open>ssize\<close>.
\<close>

definition buf_copy ::
  "(int \<Rightarrow> real) \<Rightarrow> int \<Rightarrow> int \<Rightarrow> (int \<Rightarrow> real) \<Rightarrow> int \<Rightarrow> int \<Rightarrow> int \<Rightarrow> fault + (int \<Rightarrow> real)"
where
  "buf_copy dst dsize d src ssize x count =
    (if d + count \<le> dsize \<and> x + count \<le> ssize
     then Inr (\<lambda>i. if d \<le> i \<and> i < d + count then src (x + (i - d)) else dst i)
     else Inl OutOfBounds)"

text \<open>A copy from the capture ring into the sweep buffer at \<^verbatim>\<open>sSweepParams.nHead\<close>.\<close>

definition copy_to_sweep ::
  "('t, 'o) Oscilloscope \<Rightarrow> size_t \<Rightarrow> size_t \<Rightarrow> fault + ('t, 'o) Oscilloscope"
where
  "copy_to_sweep osc x count =
    (case (vSweepBuffer osc, vCaptureBuffer osc) of
       (Some swp, Some cap) \<Rightarrow>
         bindE (buf_copy swp (uint SWEEP_BUFFER_LIMIT_SIZE) (uint (sweep_nHead (sSweepParams osc)))
                  cap (uint CAPTURE_BUFFER_LIMIT_SIZE) (uint x) (uint count))
           (\<lambda>swp. Inr (osc\<lparr>vSweepBuffer := Some swp\<rparr>))
     | _ \<Rightarrow> Inl NullPointer)"

text \<open>\<^verbatim>\<open>sSweepParams.nHead += n\<close>\<close>

definition advance_sweep :: "('t, 'o) Oscilloscope \<Rightarrow> size_t \<Rightarrow> ('t, 'o) Oscilloscope" where
  "advance_sweep osc n =
    osc\<lparr>sSweepParams := (sSweepParams osc)\<lparr>sweep_nHead := sweep_nHead (sSweepParams osc) + n\<rparr>\<rparr>"

text \<open>\<^verbatim>\<open>Oscilloscope::sweep_from_the_past\<close>.\<close>

definition sweep_from_the_past :: "('t, 'o) Oscilloscope \<Rightarrow> fault + ('t, 'o) Oscilloscope" where
  "sweep_from_the_past osc =
    (let t = nTriggerAt (sBufferParams osc);
         pre = nPreTrigger (sSweepParams osc);
         copyHead = (if t < pre then CAPTURE_BUFFER_LIMIT_SIZE - pre + t else t - pre)
     in if copyHead \<ge> t then
          bindE (copy_to_sweep osc copyHead (CAPTURE_BUFFER_LIMIT_SIZE - copyHead)) (\<lambda>osc.
          let osc = advance_sweep osc (CAPTURE_BUFFER_LIMIT_SIZE - copyHead) in
          bindE (copy_to_sweep osc 0 t) (\<lambda>osc.
          Inr (advance_sweep osc t)))
        else
          bindE (copy_to_sweep osc copyHead (t - copyHead)) (\<lambda>osc.
          Inr (advance_sweep osc (t - copyHead))))"

text \<open>
  The body of the loop \<^verbatim>\<open>for (size_t n = 0; n < to_store; ++n)\<close> of the branch
  \<^verbatim>\<open>OSC_STATE_ACQUIRING\<close>: the sample \<^verbatim>\<open>bufptr[n]\<close>, with \<^verbatim>\<open>bufptr = &vCaptureBuffer[head]\<close>,
  goes to the trigger, and a trigger that reports \<^verbatim>\<open>TRG_STATE_FIRED\<close> starts a sweep.
\<close>

definition acquire_sample ::
  "('t, 'o) collaborators \<Rightarrow> size_t \<Rightarrow> int \<Rightarrow> ('t, 'o) Oscilloscope \<Rightarrow> fault + ('t, 'o) Oscilloscope"
where
  "acquire_sample K head n osc =
    (case vCaptureBuffer osc of
       None \<Rightarrow> Inl NullPointer
     | Some cap \<Rightarrow>
         if uint head + n \<ge> uint CAPTURE_BUFFER_LIMIT_SIZE then Inl OutOfBounds
         else
           let trg = single_sample_processor K (sTrigger osc) (cap (uint head + n));
               osc = osc\<lparr>sTrigger := trg\<rparr>;
               tState = get_trigger_state K trg
           in if tState = TRG_STATE_FIRED then
                sweep_from_the_past
                  (osc\<lparr>enState := OSC_STATE_SWEEPING,
                       sBufferParams := (sBufferParams osc)\<lparr>nTriggerAt := head + of_int n\<rparr>,
                       sSweepParams := (sSweepParams osc)\<lparr>sweep_nHead := 0, bSweepComplete := False\<rparr>\<rparr>)
              else Inr osc)"

text \<open>The loop, over the values of \<open>n\<close> in order.\<close>

fun acquire_samples ::
  "('t, 'o) collaborators \<Rightarrow> size_t \<Rightarrow> int list \<Rightarrow> ('t, 'o) Oscilloscope \<Rightarrow> fault + ('t, 'o) Oscilloscope"
where
  "acquire_samples K head [] osc = Inr osc"
| "acquire_samples K head (n # ns) osc =
    bindE (acquire_sample K head n osc) (acquire_samples K head ns)"

text \<open>
  The ingestion both branches share: \<^verbatim>\<open>to_process\<close>, \<^verbatim>\<open>remaining\<close>, \<^verbatim>\<open>to_store\<close>, the
  division \<^verbatim>\<open>to_do = to_store / nOversampling\<close> and the call of \<^verbatim>\<open>sOver.upsample\<close>, which
  reads the first \<open>to_do\<close> samples of \<^verbatim>\<open>src\<close> (the source never advances \<^verbatim>\<open>src\<close>) and
  stores at \<^verbatim>\<open>&vCaptureBuffer[head]\<close>. The result is the oscilloscope, \<open>to_store\<close> and
  \<open>to_do\<close>.
\<close>

definition ingest ::
  "('t, 'o) collaborators \<Rightarrow> ('t, 'o) Oscilloscope \<Rightarrow> real list \<Rightarrow> size_t \<Rightarrow>
   fault + (('t, 'o) Oscilloscope \<times> size_t \<times> size_t)"
where
  "ingest K osc src count =
    (let head = buffer_nHead (sBufferParams osc);
         to_process = nOversampling osc * count;
         remaining = CAPTURE_BUFFER_LIMIT_SIZE - head;
         to_store = (if to_process > remaining then remaining else to_process)
     in if nOversampling osc = 0 then Inl DivisionByZero
        else
          let to_do = to_store div nOversampling osc in
          case vCaptureBuffer osc of
            None \<Rightarrow> Inl NullPointer
          | Some cap \<Rightarrow>
              if uint to_do > int (length src) then Inl OutOfBounds
              else
                let (over, ys) = upsample K (sOver osc) (take (nat (uint to_do)) src) in
                if uint head + int (length ys) > uint CAPTURE_BUFFER_LIMIT_SIZE then Inl OutOfBounds
                else
                  Inr (osc\<lparr>sOver := over,
                           vCaptureBuffer := Some (\<lambda>i. if uint head \<le> i \<and> i < uint head + int (length ys)
                                                       then ys ! nat (i - uint head) else cap i)\<rparr>,
                       to_store, to_do))"

text \<open>\<^verbatim>\<open>sBufferParams.nHead = (sBufferParams.nHead + to_store) % CAPTURE_BUFFER_LIMIT_SIZE\<close>\<close>

definition advance_buffer :: "('t, 'o) Oscilloscope \<Rightarrow> size_t \<Rightarrow> ('t, 'o) Oscilloscope" where
  "advance_buffer osc to_store =
    osc\<lparr>sBufferParams := (sBufferParams osc)
      \<lparr>buffer_nHead := (buffer_nHead (sBufferParams osc) + to_store) mod CAPTURE_BUFFER_LIMIT_SIZE\<rparr>\<rparr>"

text \<open>
  The first half of the branch \<^verbatim>\<open>OSC_STATE_SWEEPING\<close>: the copies from the capture ring
  up to \<^verbatim>\<open>copyTail\<close> into the sweep buffer.
\<close>

definition sweep_copy :: "('t, 'o) Oscilloscope \<Rightarrow> fault + ('t, 'o) Oscilloscope" where
  "sweep_copy osc =
    (let t = nTriggerAt (sBufferParams osc);
         head = buffer_nHead (sBufferParams osc);
         copyTail = (t + nPostTrigger (sSweepParams osc)) mod CAPTURE_BUFFER_LIMIT_SIZE;
         copyTail = (if copyTail < head then copyTail else head)
     in if t \<le> copyTail then
          bindE (copy_to_sweep osc t (copyTail - t + 1)) (\<lambda>osc.
          Inr (advance_sweep osc (copyTail - t + 1)))
        else
          bindE (copy_to_sweep osc t (CAPTURE_BUFFER_LIMIT_SIZE - t)) (\<lambda>osc.
          let osc = osc\<lparr>sBufferParams := (sBufferParams osc)
                      \<lparr>nTriggerAt := t + (CAPTURE_BUFFER_LIMIT_SIZE - t)\<rparr>\<rparr> in
          bindE (copy_to_sweep osc 0 (copyTail + 1)) (\<lambda>osc.
          Inr (advance_sweep osc (copyTail + 1)))))"

text \<open>
  The end of the branch: \<^verbatim>\<open>if (sSweepParams.nHead >= sSweepParams.nLimit - 1)\<close>, where
  the difference wraps when \<^verbatim>\<open>nLimit\<close> is 0.
\<close>

definition sweep_finish :: "('t, 'o) Oscilloscope \<Rightarrow> ('t, 'o) Oscilloscope" where
  "sweep_finish osc =
    (let sp = sSweepParams osc
     in if sweep_nHead sp \<ge> nLimit sp - 1
        then osc\<lparr>enState := OSC_STATE_ACQUIRING,
                 sSweepParams := sp\<lparr>sweep_nHead := 0, bSweepComplete := True\<rparr>\<rparr>
        else osc)"

text \<open>
  One round of the loop \<^verbatim>\<open>while (count > 0)\<close> of \<^verbatim>\<open>Oscilloscope::process\<close>: the
  oscilloscope and the count after the round.
\<close>

definition osc_round ::
  "('t, 'o) collaborators \<Rightarrow> ('t, 'o) Oscilloscope \<Rightarrow> real list \<Rightarrow> size_t \<Rightarrow>
   fault + (('t, 'o) Oscilloscope \<times> size_t)"
where
  "osc_round K osc src count =
    (case enState osc of
       OSC_STATE_ACQUIRING \<Rightarrow>
         bindE (ingest K osc src count) (\<lambda>(osc1, to_store, to_do).
         bindE (acquire_samples K (buffer_nHead (sBufferParams osc)) [0..uint to_store - 1] osc1) (\<lambda>osc2.
         Inr (advance_buffer osc2 to_store, count - to_do)))
     | OSC_STATE_SWEEPING \<Rightarrow>
         bindE (sweep_copy osc) (\<lambda>osc.
         bindE (ingest K osc src count) (\<lambda>(osc, to_store, to_do).
         Inr (sweep_finish (advance_buffer osc to_store), count - to_do))))"

text \<open>
  The loop. It need not end, so the result is an option, as for the analyzer's loop.
\<close>

partial_function (option) osc_loop ::
  "('t, 'o) collaborators \<Rightarrow> ('t, 'o) Oscilloscope \<Rightarrow> real list \<Rightarrow> size_t \<Rightarrow>
   (fault + ('t, 'o) Oscilloscope) option"
where
  "osc_loop K osc src count =
    (if count > 0 then
       (case osc_round K osc src count of
          Inl e \<Rightarrow> Some (Inl e)
        | Inr (osc', count') \<Rightarrow> osc_loop K osc' src count')
     else Some (Inr osc))"

declare osc_loop.simps [code]

text \<open>
  \<^verbatim>\<open>Oscilloscope::process(dst, src, count)\<close>, with \<open>src\<close> the \<open>count\<close> floats at \<^verbatim>\<open>src\<close>: the
  floats stored at \<^verbatim>\<open>dst\<close> and the oscilloscope after the call.
\<close>

definition osc_process ::
  "('t, 'o) collaborators \<Rightarrow> ('t, 'o) Oscilloscope \<Rightarrow> real list \<Rightarrow>
   (fault + (real list \<times> ('t, 'o) Oscilloscope)) option"
where
  "osc_process K osc src =
    (let dst = (case enOutputMode osc of
                  OSC_OUTPUT_MODE_COPY \<Rightarrow> src
                | OSC_OUTPUT_MODE_MUTED \<Rightarrow> replicate (length src) 0)
     in case osc_loop K osc src (of_nat (length src)) of
          None \<Rightarrow> None
        | Some (Inl e) \<Rightarrow> Some (Inl e)
        | Some (Inr osc') \<Rightarrow> Some (Inr (dst, osc')))"

section \<open>Oscilloscope: an example configuration\<close>

text \<open>
  A trigger for the examples: it reports \<^verbatim>\<open>TRG_STATE_FIRED\<close> on the sample that rises
  through zero (the sample before it is not positive, the sample is), on that sample
  only, and then ignores as many samples as the post-trigger count it was given. The
  oversampler of the examples has the factor 1 and stores the samples it reads.
\<close>

record edge_trigger =
  et_prev :: real
  et_state :: trg_state_t
  et_hold :: nat
  et_post :: nat

definition edge_sample :: "edge_trigger \<Rightarrow> real \<Rightarrow> edge_trigger" where
  "edge_sample t x =
    (if et_hold t > 0 then t\<lparr>et_prev := x, et_state := TRG_STATE_WAITING, et_hold := et_hold t - 1\<rparr>
     else if et_prev t \<le> 0 \<and> 0 < x
       then t\<lparr>et_prev := x, et_state := TRG_STATE_FIRED, et_hold := et_post t\<rparr>
     else t\<lparr>et_prev := x, et_state := TRG_STATE_WAITING\<rparr>)"

definition example_collaborators :: "(edge_trigger, unit) collaborators" where
  "example_collaborators =
    \<lparr>single_sample_processor = edge_sample,
     get_trigger_state = et_state,
     trigger_settings = (\<lambda>t post ty.
       \<lparr>et_prev = 0, et_state = TRG_STATE_WAITING, et_hold = 0, et_post = nat (uint post)\<rparr>),
     over_settings = (\<lambda>u sr m. u),
     get_oversampling = (\<lambda>u. 1),
     upsample = (\<lambda>u xs. (u, xs))\<rparr>"

definition idle_trigger :: edge_trigger where
  "idle_trigger = \<lparr>et_prev = 0, et_state = TRG_STATE_IDLE, et_hold = 0, et_post = 0\<rparr>"

text \<open>
  The oscilloscope after \<^verbatim>\<open>init()\<close>, with both buffers holding zeros, the setters and
  \<^verbatim>\<open>update_settings()\<close>: the sample rate is 1, so that \<open>pre\<close> and \<open>post\<close> seconds are
  \<open>pre\<close> and \<open>post\<close> samples, and the trigger is the rising edge.

  Modelled from the spec: the setters are inline functions of the missing header; each
  stores its argument in its field, and \<^verbatim>\<open>bSync\<close> is set.
\<close>

definition example_oscilloscope :: "real \<Rightarrow> real \<Rightarrow> fault + (edge_trigger, unit) Oscilloscope" where
  "example_oscilloscope pre post =
    (let osc = snd (osc_init (Some (\<lambda>i. 0, \<lambda>i. 0)) True (osc_construct idle_trigger ()));
         osc = osc\<lparr>osc_nSampleRate := 1, enTriggerType := TRG_TYPE_SIMPLE_RISING_EDGE,
                   sSweepParams := (sSweepParams osc)\<lparr>fPreTrigger := pre, fPostTrigger := post\<rparr>,
                   bSync := True\<rparr>
     in osc_update_settings example_collaborators osc)"

text \<open>A call of \<^verbatim>\<open>process\<close> on the oscilloscope an earlier step has left, if it left one.\<close>

definition then_process ::
  "('t, 'o) collaborators \<Rightarrow> (fault + ('t, 'o) Oscilloscope) option \<Rightarrow> real list \<Rightarrow>
   (fault + ('t, 'o) Oscilloscope) option"
where
  "then_process K r src =
    (case r of
       Some (Inr osc) \<Rightarrow>
         (case osc_process K osc src of
            None \<Rightarrow> None
          | Some (Inl e) \<Rightarrow> Some (Inl e)
          | Some (Inr (dst, osc')) \<Rightarrow> Some (Inr osc'))
     | _ \<Rightarrow> r)"

text \<open>The calls \<^verbatim>\<open>process(dst, b, |b|)\<close> for the blocks \<open>b\<close> of a list, in order.\<close>

definition osc_run ::
  "('t, 'o) collaborators \<Rightarrow> fault + ('t, 'o) Oscilloscope \<Rightarrow> real list list \<Rightarrow>
   (fault + ('t, 'o) Oscilloscope) option"
where
  "osc_run K r bs = foldl (then_process K) (Some r) bs"

text \<open>
  What the examples look at: the run-state, the completion flag, the head of the sweep
  buffer, the head of the capture ring, the trigger index, and the first \<open>n\<close> cells of the
  sweep buffer.
\<close>

definition sweep_view ::
  "int \<Rightarrow> (fault + ('t, 'o) Oscilloscope) option \<Rightarrow>
   (fault + (osc_state_t \<times> bool \<times> int \<times> int \<times> int \<times> real list)) option"
where
  "sweep_view n r =
    (case r of
       None \<Rightarrow> None
     | Some (Inl e) \<Rightarrow> Some (Inl e)
     | Some (Inr osc) \<Rightarrow>
         Some (Inr (enState osc, bSweepComplete (sSweepParams osc),
                    uint (sweep_nHead (sSweepParams osc)),
                    uint (buffer_nHead (sBufferParams osc)),
                    uint (nTriggerAt (sBufferParams osc)),
                    (case vSweepBuffer osc of None \<Rightarrow> [] | Some swp \<Rightarrow> map swp [0..n - 1]))))"

text \<open>
  A result that is not the fault of a division by zero and, when it is an oscilloscope,
  has the oversampling factor \<open>m\<close>.
\<close>

definition no_div_fault :: "size_t \<Rightarrow> fault + ('t, 'o) Oscilloscope \<Rightarrow> bool" where
  "no_div_fault m r = (case r of Inl e \<Rightarrow> e \<noteq> DivisionByZero | Inr osc \<Rightarrow> nOversampling osc = m)"

chapter \<open>Properties\<close>

section \<open>Biquad engine: number of samples written\<close>

lemma biquad_process_x1_length: "length (fst (biquad_process_x1 src f)) = length src"
proof (induction src arbitrary: f)
  case Nil
  show ?case by simp
next
  case (Cons s src)
  show ?case
    using Cons.IH by (simp add: Let_def split_beta)
qed

lemma x2_both_length: "length (fst (x2_both src r f)) = length src"
  by (induction src arbitrary: r f) (simp_all add: Let_def split_beta)

lemma biquad_process_x2_length: "length (fst (biquad_process_x2 src f)) = length src"
  by (cases src) (simp_all add: biquad_process_x2_def Let_def split_beta x2_both_length)

lemma x4_main_length:
  "length (snd (snd (snd (x4_main src f s s2 i dst)))) = length dst + (length src - i)"
proof (induction "length src - i" arbitrary: f s s2 i dst)
  case 0
  then show ?case by (subst x4_main.simps) simp
next
  case (Suc n)
  from Suc.hyps(2) have lt: "i < length src" and n: "n = length src - Suc i" by simp_all
  show ?case
    using lt by (subst x4_main.simps) (simp add: split_beta Suc.hyps(1)[OF n])
qed

text \<open>With three samples or more the start loop runs three times and leaves \<open>mask = 14\<close>.\<close>

lemma x4_start_long:
  assumes "3 \<le> length src"
  shows "snd (snd (snd (x4_start src f s s2 0 0))) = (14, 3)"
  using assms by (simp add: x4_start.simps x4_start_step_def Let_def split_beta)

lemma x4_finish_14: "length (snd (x4_finish f s s2 14 dst)) = length dst + 3"
  by (simp add: x4_finish.simps x4_next_mask_def split_beta)

lemma biquad_process_x4_length_long:
  assumes "3 \<le> length src"
  shows "length (fst (biquad_process_x4 src f)) = length src"
  using assms x4_start_long[OF assms, of f "\<lambda>k. 0" "\<lambda>k. 0"]
  by (simp add: biquad_process_x4_def Let_def split_beta x4_main_length x4_finish_14)

lemma biquad_process_x4_length_two: "length (fst (biquad_process_x4 [a, b] f)) = 3"
  by (simp add: biquad_process_x4_def x4_start.simps x4_main.simps x4_finish.simps
      x4_start_step_def x4_next_mask_def Let_def split_beta)

text \<open>
  C3. The claim is that every routine writes exactly \<open>count\<close> samples for every
  \<open>count \<ge> 1\<close>. \<^verbatim>\<open>biquad_process_x1\<close> and \<^verbatim>\<open>biquad_process_x2\<close> do
  (\<open>biquad_process_x1_length\<close>, \<open>biquad_process_x2_length\<close>), and
  \<^verbatim>\<open>biquad_process_x4\<close> does from three samples on (\<open>biquad_process_x4_length_long\<close>).
  With \<open>count = 1\<close> the start loop leaves \<open>mask = 2\<close>, and the drain loop, which runs lane
  3 and stores through \<^verbatim>\<open>dst\<close> in every round whatever the mask says, runs for the masks
  2, 4 and 8: \<^verbatim>\<open>biquad_process_x4\<close> stores three samples for one sample of input, for
  every sample and every filter state.
\<close>

theorem biquad_process_x4_one_sample_writes_three:
  "length (fst (biquad_process_x4 [a] f)) = 3"
  by (simp add: biquad_process_x4_def x4_start.simps x4_main.simps x4_finish.simps
      x4_start_step_def x4_next_mask_def Let_def split_beta)

section \<open>Biquad engine: the two-section routine against two one-section passes\<close>

lemma biquad_process_x1_section:
  "fst (biquad_process_x1 src f) = fst (section_run (x1_coefs (bq_x1 f)) (bq_d f 0, bq_d f 1) src)"
proof (induction src arbitrary: f)
  case Nil
  show ?case by simp
next
  case (Cons s src)
  show ?case
    by (simp add: Let_def split_beta Cons.IH section_step_def x1_coefs_def set_d_def)
qed

lemma section_run_snoc:
  "section_run c d (xs @ [x]) =
    (fst (section_run c d xs) @ [fst (section_step c (snd (section_run c d xs)) x)],
     snd (section_step c (snd (section_run c d xs)) x))"
  by (induction xs arbitrary: d) (simp_all add: Let_def split_beta)

text \<open>
  The loop "Both filters": section \<open>B\<close> has consumed the carry and all but the last output
  of section \<open>A\<close>; the last output of \<open>A\<close> is the new carry.
\<close>

lemma x2_both_section:
  "fst (x2_both src r f) =
     fst (section_run (x2_coefs_B (bq_x2 f)) (bq_d f 4, bq_d f 5)
       (butlast (r # fst (section_run (x2_coefs_A (bq_x2 f)) (bq_d f 0, bq_d f 1) src)))) \<and>
   fst (snd (x2_both src r f)) =
     last (r # fst (section_run (x2_coefs_A (bq_x2 f)) (bq_d f 0, bq_d f 1) src)) \<and>
   (bq_d (snd (snd (x2_both src r f))) 4, bq_d (snd (snd (x2_both src r f))) 5) =
     snd (section_run (x2_coefs_B (bq_x2 f)) (bq_d f 4, bq_d f 5)
       (butlast (r # fst (section_run (x2_coefs_A (bq_x2 f)) (bq_d f 0, bq_d f 1) src)))) \<and>
   bq_x2 (snd (snd (x2_both src r f))) = bq_x2 f"
proof (induction src arbitrary: r f)
  case Nil
  show ?case by simp
next
  case (Cons s src)
  show ?case
    by (simp add: Let_def split_beta Cons.IH section_step_def x2_coefs_A_def x2_coefs_B_def set_d_def)
qed

lemma biquad_process_x2_section:
  "fst (biquad_process_x2 src f) =
     fst (section_run (x2_coefs_B (bq_x2 f)) (bq_d f 4, bq_d f 5)
       (fst (section_run (x2_coefs_A (bq_x2 f)) (bq_d f 0, bq_d f 1) src)))"
proof (cases src)
  case Nil
  then show ?thesis by (simp add: biquad_process_x2_def)
next
  case (Cons s rest)
  define y0 where "y0 = x2_a (bq_x2 f) 0 * s + bq_d f 0"
  define f1 where "f1 =
    set_d (set_d f 0 (bq_d f 1 + (x2_a (bq_x2 f) 2 * s + x2_b (bq_x2 f) 0 * y0))) 1
      (x2_a (bq_x2 f) 3 * s + x2_b (bq_x2 f) 1 * y0)"
  define ys where "ys = fst (section_run (x2_coefs_A (bq_x2 f1)) (bq_d f1 0, bq_d f1 1) rest)"
  have run: "fst (section_run (x2_coefs_A (bq_x2 f)) (bq_d f 0, bq_d f 1) src) = y0 # ys"
    by (simp add: Cons Let_def split_beta section_step_def x2_coefs_A_def set_d_def
        f1_def y0_def ys_def)
  have split: "y0 # ys = butlast (y0 # ys) @ [last (y0 # ys)]"
    by (simp del: butlast.simps last.simps)
  note both = x2_both_section[of rest y0 f1, folded ys_def]
  have "fst (biquad_process_x2 src f) =
      fst (x2_both rest y0 f1) @
        [x2_a (bq_x2 f1) 4 * fst (snd (x2_both rest y0 f1)) + bq_d (snd (snd (x2_both rest y0 f1))) 4]"
    using both by (simp add: biquad_process_x2_def Cons Let_def split_beta f1_def y0_def)
  also have "\<dots> =
      fst (section_run (x2_coefs_B (bq_x2 f1)) (bq_d f1 4, bq_d f1 5)
        (butlast (y0 # ys) @ [last (y0 # ys)]))"
    using both
    apply (simp only: section_run_snoc fst_conv)
    apply (simp add: section_step_def x2_coefs_B_def split_beta del: butlast.simps last.simps)
    apply (metis fst_conv prod.collapse)
    done
  also have "\<dots> = fst (section_run (x2_coefs_B (bq_x2 f)) (bq_d f 4, bq_d f 5) (y0 # ys))"
    unfolding split[symmetric] by (simp add: f1_def set_d_def)
  finally show ?thesis unfolding run .
qed

text \<open>For every filter state and every input, in particular every input of 64 samples or more.\<close>

lemma biquad_process_x2_cascade_any_length:
  "fst (biquad_process_x2 src
      \<lparr>bq_d = x2_delay dA dB, bq_x1 = X1, bq_x2 = x2_cascade A B, bq_x4 = X4\<rparr>) =
   fst (biquad_process_x1
      (fst (biquad_process_x1 src \<lparr>bq_d = dA, bq_x1 = A, bq_x2 = X2, bq_x4 = X4'\<rparr>))
      \<lparr>bq_d = dB, bq_x1 = B, bq_x2 = X2', bq_x4 = X4''\<rparr>)"
  by (simp add: biquad_process_x2_section biquad_process_x1_section x2_coefs_A_def x2_coefs_B_def
      x1_coefs_def x2_cascade_def x2_delay_def)

text \<open>
  C4. For every pair of coefficient sets \<open>A\<close> and \<open>B\<close> (each an \<^verbatim>\<open>x1\<close> coefficient
  block), every delay state \<open>dA\<close> of the first section and \<open>dB\<close> of the second, and every
  input of 64 samples or more, \<^verbatim>\<open>biquad_process_x2\<close> on the cascade of \<open>A\<close> then \<open>B\<close>
  stores the same samples as \<^verbatim>\<open>biquad_process_x1\<close> with \<open>A\<close> followed by
  \<^verbatim>\<open>biquad_process_x1\<close> with \<open>B\<close> on its output. The other members of the union
  (\<open>X1\<close>, \<open>X2\<close>, \<open>X2'\<close>, \<open>X4\<close>, \<open>X4'\<close>, \<open>X4''\<close>) are arbitrary.
\<close>

theorem biquad_process_x2_is_x1_after_x1:
  assumes "64 \<le> length src"
  shows "fst (biquad_process_x2 src
      \<lparr>bq_d = x2_delay dA dB, bq_x1 = X1, bq_x2 = x2_cascade A B, bq_x4 = X4\<rparr>) =
   fst (biquad_process_x1
      (fst (biquad_process_x1 src \<lparr>bq_d = dA, bq_x1 = A, bq_x2 = X2, bq_x4 = X4'\<rparr>))
      \<lparr>bq_d = dB, bq_x1 = B, bq_x2 = X2', bq_x4 = X4''\<rparr>)"
  by (rule biquad_process_x2_cascade_any_length)

theorem biquad_process_x2_is_x1_after_x1_witness:
  "64 \<le> length (replicate 64 (1::real)) \<and>
   fst (biquad_process_x2 (replicate 64 1)
      \<lparr>bq_d = x2_delay (\<lambda>k. 0) (\<lambda>k. 1),
       bq_x1 = \<lparr>x1_a = (\<lambda>k. 0), x1_b = (\<lambda>k. 0)\<rparr>,
       bq_x2 = x2_cascade \<lparr>x1_a = (\<lambda>k. 1 / 2), x1_b = (\<lambda>k. 1 / 4)\<rparr>
                          \<lparr>x1_a = (\<lambda>k. 1 / 3), x1_b = (\<lambda>k. - 1 / 8)\<rparr>,
       bq_x4 = \<lparr>x4_a0 = (\<lambda>k. 0), x4_a1 = (\<lambda>k. 0), x4_a2 = (\<lambda>k. 0),
                x4_b1 = (\<lambda>k. 0), x4_b2 = (\<lambda>k. 0)\<rparr>\<rparr>) =
   fst (biquad_process_x1
      (fst (biquad_process_x1 (replicate 64 1)
         \<lparr>bq_d = (\<lambda>k. 0), bq_x1 = \<lparr>x1_a = (\<lambda>k. 1 / 2), x1_b = (\<lambda>k. 1 / 4)\<rparr>,
          bq_x2 = \<lparr>x2_a = (\<lambda>k. 0), x2_b = (\<lambda>k. 0)\<rparr>,
          bq_x4 = \<lparr>x4_a0 = (\<lambda>k. 0), x4_a1 = (\<lambda>k. 0), x4_a2 = (\<lambda>k. 0),
                   x4_b1 = (\<lambda>k. 0), x4_b2 = (\<lambda>k. 0)\<rparr>\<rparr>))
      \<lparr>bq_d = (\<lambda>k. 1), bq_x1 = \<lparr>x1_a = (\<lambda>k. 1 / 3), x1_b = (\<lambda>k. - 1 / 8)\<rparr>,
       bq_x2 = \<lparr>x2_a = (\<lambda>k. 0), x2_b = (\<lambda>k. 0)\<rparr>,
       bq_x4 = \<lparr>x4_a0 = (\<lambda>k. 0), x4_a1 = (\<lambda>k. 0), x4_a2 = (\<lambda>k. 0),
                x4_b1 = (\<lambda>k. 0), x4_b2 = (\<lambda>k. 0)\<rparr>\<rparr>)"
proof -
  have len: "64 \<le> length (replicate 64 (1::real))" by simp
  show ?thesis
    using len biquad_process_x2_is_x1_after_x1[OF len] by blast
qed

section \<open>Analyzer: what \<open>reconfigure\<close> changes\<close>

lemma bindE_Inr: "bindE m f = Inr y \<longleftrightarrow> (\<exists>x. m = Inr x \<and> f x = Inr y)"
  by (cases m) (simp_all add: bindE_def)

lemma counter_step_round4: "counter_step n c = 4 * ((n div c) div 4)"
proof -
  have "(n div c) AND 3 = (n div c) mod 4"
    using take_bit_eq_mask[of 2 "n div c"] by (simp add: take_bit_eq_mod mask_eq_exp_minus_1)
  then show ?thesis
    by (simp add: counter_step_def Let_def minus_mod_eq_mult_div)
qed

lemma for_channels_Inr:
  "for_channels body ix chs = Inr chs' \<Longrightarrow> distinct ix \<Longrightarrow>
     (\<forall>i\<in>set ix. body i (chs i) = Inr (chs' i)) \<and> (\<forall>i. i \<notin> set ix \<longrightarrow> chs' i = chs i)"
proof (induction ix arbitrary: chs)
  case Nil
  then show ?case by simp
next
  case (Cons j ix)
  from Cons.prems(1) obtain c where c: "body j (chs j) = Inr c"
    and rest: "for_channels body ix (chs(j := c)) = Inr chs'"
    by (auto simp: bindE_Inr)
  from Cons.prems(2) have d: "distinct ix" and j: "j \<notin> set ix" by simp_all
  from Cons.IH[OF rest d] j c show ?case by (auto split: if_splits)
qed

lemma each_channel_Inr:
  assumes "each_channel a body = Inr a'"
  shows "(nChannels a = 0 \<and> a' = a) \<or>
     (\<exists>chs chs'. vChannels a = Some chs \<and> a' = a\<lparr>vChannels := Some chs'\<rparr> \<and>
        (\<forall>i<nChannels a. body i (chs i) = Inr (chs' i)) \<and>
        (\<forall>i. \<not> i < nChannels a \<longrightarrow> chs' i = chs i))"
proof (cases "nChannels a = 0")
  case True
  with assms show ?thesis by (simp add: each_channel_def)
next
  case False
  with assms obtain chs chs' where chs: "vChannels a = Some chs"
    and f: "for_channels body [0..<nChannels a] chs = Inr chs'"
    and a': "a' = a\<lparr>vChannels := Some chs'\<rparr>"
    by (auto simp: each_channel_def bindE_Inr split: option.splits)
  from for_channels_Inr[OF f] chs a' show ?thesis by auto
qed

text \<open>The blocks before "Update counters" change the data block and \<^verbatim>\<open>fTau\<close> only.\<close>

lemma update_envelope_Inr: "update_envelope K n a = Inr a' \<Longrightarrow> a' = a\<lparr>vData := vData a'\<rparr>"
  by (auto simp: update_envelope_def bindE_Inr split: if_splits)

lemma clear_analysis_Inr: "clear_analysis n a = Inr a' \<Longrightarrow> a' = a\<lparr>vData := vData a'\<rparr>"
  by (auto simp: clear_analysis_def bindE_Inr split: if_splits option.splits)

lemma update_window_Inr: "update_window K n a = Inr a' \<Longrightarrow> a' = a\<lparr>vData := vData a'\<rparr>"
  by (auto simp: update_window_def bindE_Inr split: if_splits)

lemma update_reactivity_eq: "update_reactivity K a = a\<lparr>fTau := fTau (update_reactivity K a)\<rparr>"
  by (simp add: update_reactivity_def)

lemma update_counters_Inr:
  assumes "update_counters n a = Inr a'" and "R_COUNTERS \<in> nReconfigure a"
  shows "nChannels a \<noteq> 0 \<and>
     (\<exists>chs chs'. vChannels a = Some chs \<and> a' = a\<lparr>vChannels := Some chs'\<rparr> \<and>
        (\<forall>i<nChannels a. chs' i = (chs i)\<lparr>nCounter := int (i * counter_step n (nChannels a)),
                                          nDelay := int (i * counter_step n (nChannels a))\<rparr>))"
proof -
  define step where "step = counter_step n (nChannels a)"
  from assms have nz: "nChannels a \<noteq> 0"
    and e: "each_channel a (\<lambda>i c. Inr (c\<lparr>nCounter := int (i * step), nDelay := int (i * step)\<rparr>)) = Inr a'"
    by (auto simp: update_counters_def Let_def step_def split: if_splits)
  from each_channel_Inr[OF e] nz show ?thesis
    unfolding step_def by fastforce
qed

lemma float_div_to_size_Inr:
  "float_div_to_size x y = Inr p \<Longrightarrow> p = nat \<lfloor>x / y\<rfloor> \<and> y \<noteq> 0 \<and> - 1 < x / y"
  by (auto simp: float_div_to_size_def split: if_splits)

lemma reconfigure_idle: "nReconfigure a = {} \<Longrightarrow> reconfigure K a = Inr a"
  by (simp add: reconfigure_def)

lemma reconfigure_counters:
  assumes "reconfigure K a = Inr a'" and "R_COUNTERS \<in> nReconfigure a"
  shows "nChannels a \<noteq> 0 \<and>
     (\<exists>chs chs'. vChannels a = Some chs \<and> vChannels a' = Some chs' \<and>
        (\<forall>i<nChannels a. chs' i = (chs i)\<lparr>nCounter := int (i * counter_step (2 ^ nRank a) (nChannels a)),
                                          nDelay := int (i * counter_step (2 ^ nRank a) (nChannels a))\<rparr>))"
proof -
  from assms(2) have "nReconfigure a \<noteq> {}" by auto
  with assms(1) obtain period a1 a2 a3 a4 where
    s1: "update_envelope K (2 ^ nRank a) (a\<lparr>nFftPeriod := int period\<rparr>) = Inr a1"
    and s2: "clear_analysis (2 ^ nRank a) a1 = Inr a2"
    and s3: "update_window K (2 ^ nRank a) a2 = Inr a3"
    and s4: "update_counters (2 ^ nRank a) (update_reactivity K a3) = Inr a4"
    and a': "a' = a4\<lparr>nReconfigure := {}\<rparr>"
    by (simp add: reconfigure_def Let_def bindE_Inr) blast
  define m3 where "m3 = vData a3"
  define t where "t = fTau (update_reactivity K a3)"
  have a1: "a1 = a\<lparr>nFftPeriod := int period, vData := vData a1\<rparr>"
    using update_envelope_Inr[OF s1] by simp
  have a2: "a2 = a\<lparr>nFftPeriod := int period, vData := vData a2\<rparr>"
    by (subst clear_analysis_Inr[OF s2], subst a1, simp)
  have a3: "a3 = a\<lparr>nFftPeriod := int period, vData := m3\<rparr>"
    unfolding m3_def by (subst update_window_Inr[OF s3], subst a2, simp)
  have u: "update_reactivity K a3 = a\<lparr>nFftPeriod := int period, vData := m3, fTau := t\<rparr>"
    unfolding t_def by (subst update_reactivity_eq, subst a3, simp)
  have pend: "R_COUNTERS \<in> nReconfigure (update_reactivity K a3)" using u assms(2) by simp
  from update_counters_Inr[OF s4 pend] u a' show ?thesis by auto
qed

text \<open>Rounding the step down to a multiple of 4 and rounding the product are different things.\<close>

lemma counter_step_is_not_rounded_product:
  "2 * counter_step 32 3 = 16 \<and> 4 * ((2 * (32 div 3)) div (4::nat)) = 20"
  by (simp add: counter_step_round4)

text \<open>
  C8. When \<open>reconfigure\<close> applies the bit \<^verbatim>\<open>R_COUNTERS\<close> and returns, every channel
  \<open>i < C\<close> has the start offset \<open>i * step\<close>, where \<open>step\<close> is \<open>N / C\<close> rounded down to a
  multiple of 4 (the rounding is the step's, as the source computes it), in both
  \<^verbatim>\<open>nDelay\<close> and \<^verbatim>\<open>nCounter\<close>; with four channels and rank 8 the counters are 0, 64, 128
  and 192.
\<close>

theorem reconfigure_distributes_counters:
  assumes "R_COUNTERS \<in> nReconfigure a" and "reconfigure K a = Inr a'" and "i < nChannels a"
  shows "\<exists>chs. vChannels a' = Some chs \<and>
           nDelay (chs i) = int (i * (4 * ((2 ^ nRank a div nChannels a) div 4))) \<and>
           nCounter (chs i) = nDelay (chs i) \<and>
           (nChannels a = 4 \<and> nRank a = 8 \<longrightarrow> nCounter (chs i) = [0, 64, 128, 192] ! i)"
proof -
  from reconfigure_counters[OF assms(2) assms(1)] assms(3)
  obtain chs chs' where chs': "vChannels a' = Some chs'"
    and r: "chs' i = (chs i)\<lparr>nCounter := int (i * counter_step (2 ^ nRank a) (nChannels a)),
                             nDelay := int (i * counter_step (2 ^ nRank a) (nChannels a))\<rparr>"
    by blast
  from r have d: "nDelay (chs' i) = int (i * (4 * ((2 ^ nRank a div nChannels a) div 4)))"
    and c: "nCounter (chs' i) = nDelay (chs' i)"
    by (simp_all add: counter_step_round4)
  have "nCounter (chs' i) = [0, 64, 128, 192] ! i" if "nChannels a = 4" "nRank a = 8"
  proof -
    from that assms(3) have "i = 0 \<or> i = 1 \<or> i = 2 \<or> i = 3" by auto
    with that c d show ?thesis by auto
  qed
  with chs' c d show ?thesis by blast
qed

theorem reconfigure_distributes_counters_witness:
  "\<exists>a'. R_COUNTERS \<in> nReconfigure (started (init 16 True (construct 0 0) 4 8 240 1)) \<and>
     reconfigure example_kernel (started (init 16 True (construct 0 0) 4 8 240 1)) = Inr a' \<and>
     2 < nChannels (started (init 16 True (construct 0 0) 4 8 240 1)) \<and>
     (\<exists>chs. vChannels a' = Some chs \<and> nDelay (chs 2) = 128 \<and> nCounter (chs 2) = 128)"
proof -
  define a where "a = started (init 16 True (construct 0 0) 4 8 240 1)"
  have h1: "R_COUNTERS \<in> nReconfigure a" and h3: "2 < nChannels a"
    and g: "nChannels a = 4 \<and> nRank a = 8"
    unfolding a_def by code_simp+
  have "case reconfigure example_kernel a of Inr a' \<Rightarrow> True | Inl e \<Rightarrow> False"
    unfolding a_def by code_simp
  then obtain a' where h2: "reconfigure example_kernel a = Inr a'"
    by (cases "reconfigure example_kernel a") auto
  from reconfigure_distributes_counters[OF h1 h2 h3] g h1 h2 h3
  show ?thesis unfolding a_def by auto
qed

section \<open>Analyzer: the signal handed to the transform\<close>

lemma nth_cells_list:
  assumes "length zs = nat n"
  shows "map (\<lambda>i. zs ! nat (i - d)) [d..d + n - 1] = zs"
proof (rule nth_equalityI)
  show "length (map (\<lambda>i. zs ! nat (i - d)) [d..d + n - 1]) = length zs"
    using assms by simp
next
  fix k assume "k < length (map (\<lambda>i. zs ! nat (i - d)) [d..d + n - 1])"
  then have k: "int k < n" by simp
  then have "[d..d + n - 1] ! k = d + int k" by (simp add: nth_upto)
  with k show "map (\<lambda>i. zs ! nat (i - d)) [d..d + n - 1] ! k = zs ! k" by simp
qed

lemma mul3_cells:
  assumes "mul3 mem d mem x mem y n = Inr mem'"
  shows "cells mem' d n = map2 (*) (cells mem x n) (cells mem y n)"
    and "\<forall>i. \<not> (d \<le> i \<and> i < d + n) \<longrightarrow> b_cell mem' i = b_cell mem i"
proof -
  from assms obtain xs ys where xs: "rd mem x n = Inr xs" and ys: "rd mem y n = Inr ys"
    and w: "wr mem d (map2 (*) xs ys) = Inr mem'"
    by (auto simp: mul3_def bindE_Inr)
  from xs ys have n: "0 \<le> n" and x: "xs = cells mem x n" and y: "ys = cells mem y n"
    by (auto simp: rd_def cells_def split: if_splits)
  have l: "length (map2 (*) xs ys) = nat n" using x y by (simp add: cells_def)
  from w have c: "b_cell mem' = (\<lambda>i. if d \<le> i \<and> i < d + n then map2 (*) xs ys ! nat (i - d)
                                     else b_cell mem i)"
    using l n by (auto simp: wr_def Let_def split: if_splits)
  have "cells mem' d n = map (\<lambda>i. map2 (*) xs ys ! nat (i - d)) [d..d + n - 1]"
    unfolding cells_def c by (rule map_cong) auto
  also have "\<dots> = map2 (*) xs ys" by (rule nth_cells_list[OF l])
  finally show "cells mem' d n = map2 (*) (cells mem x n) (cells mem y n)" using x y by simp
  show "\<forall>i. \<not> (d \<le> i \<and> i < d + n) \<longrightarrow> b_cell mem' i = b_cell mem i" by (simp add: c)
qed

lemma mul3_nonneg: "mul3 mem d mem x mem y n = Inr mem' \<Longrightarrow> 0 \<le> n"
  by (auto simp: mul3_def bindE_Inr rd_def split: if_splits)

text \<open>
  Whatever the head and the delay are, the signal \<open>process_prepare\<close> leaves in \<^verbatim>\<open>vSigRe\<close>
  is the product of the first \<open>N\<close> cells at \<^verbatim>\<open>vBuffer\<close> and the first \<open>N\<close> cells at
  \<^verbatim>\<open>vWindow\<close>, read from a block that differs from the one before the call in the cells of
  \<^verbatim>\<open>vSigRe\<close> only.
\<close>

lemma process_prepare_ignores_ring_position:
  assumes "process_prepare a c = Inr mem"
  shows "\<exists>mem0. cells mem (vSigRe a) (2 ^ nRank a) =
            map2 (*) (cells mem0 (vBuffer c) (2 ^ nRank a)) (cells mem0 (vWindow a) (2 ^ nRank a)) \<and>
          (\<forall>i. \<not> (vSigRe a \<le> i \<and> i < vSigRe a + 2 ^ nRank a) \<longrightarrow>
                b_cell mem0 i = b_cell (vData a) i)"
proof -
  define N :: int where "N = 2 ^ nRank a"
  define offset where "offset = (if nHead c - nDelay c < 0 then nHead c - nDelay c + nBufSize a
                                 else nHead c - nDelay c)"
  define count where "count = nBufSize a - offset"
  define first where "first =
    (if count < N then
       bindE (mul3 (vData a) (vSigRe a) (vData a) (vBuffer c + offset) (vData a) (vWindow a) count)
         (\<lambda>m. mul3 m (vSigRe a + count) m (vBuffer c) m (vWindow a + count) (N - count))
     else mul3 (vData a) (vSigRe a) (vData a) (vBuffer c + offset) (vData a) (vWindow a) N)"
  have "process_prepare a c =
      bindE first (\<lambda>m. mul3 m (vSigRe a) m (vBuffer c) m (vWindow a) N)"
    unfolding process_prepare_def Let_def first_def count_def offset_def N_def ..
  with assms obtain mem0 where first: "first = Inr mem0"
    and last: "mul3 mem0 (vSigRe a) mem0 (vBuffer c) mem0 (vWindow a) N = Inr mem"
    by (auto simp: bindE_Inr)
  note first = first[unfolded first_def]
  have frame: "\<forall>i. \<not> (vSigRe a \<le> i \<and> i < vSigRe a + N) \<longrightarrow> b_cell mem0 i = b_cell (vData a) i"
  proof (cases "count < N")
    case False
    with first mul3_cells(2) show ?thesis by auto
  next
    case True
    with first obtain m1 where
      s1: "mul3 (vData a) (vSigRe a) (vData a) (vBuffer c + offset) (vData a) (vWindow a) count = Inr m1"
      and s2: "mul3 m1 (vSigRe a + count) m1 (vBuffer c) m1 (vWindow a + count) (N - count) = Inr mem0"
      by (auto simp: bindE_Inr)
    from mul3_nonneg[OF s1] have c0: "0 \<le> count" .
    from mul3_cells(2)[OF s1] mul3_cells(2)[OF s2] c0 True show ?thesis by auto
  qed
  from mul3_cells(1)[OF last] frame show ?thesis unfolding N_def by blast
qed

text \<open>
  C1. The claim is that the transform gets the \<open>N\<close> samples of the ring from
  \<open>(head - delay) mod B\<close> on, times the window. The source computes that signal into
  \<^verbatim>\<open>vSigRe\<close> with the segmented \<^verbatim>\<open>mul3\<close> and then overwrites it with
  \<^verbatim>\<open>dsp::mul3(vSigRe, c->vBuffer, vWindow, fft_size)\<close>: the transform always gets the first
  \<open>N\<close> cells of the buffer times the window (\<open>process_prepare_ignores_ring_position\<close>).
  Here: one channel, rank 2, a ring of 16 cells, an FFT every 4 samples, the samples 1 to 20
  in blocks of four. The ring then holds 17, 18, 19, 20 in its first cells, the head is 4
  and an FFT is due; the samples from the head on are 5, 6, 7, 8, and the transform is
  handed 17, 18, 19, 20.
\<close>

theorem process_hands_first_cells_to_fft:
  "(case init 16 True (construct 0 0) 1 2 12 1 of
      Inr (ok, a) \<Rightarrow>
        (case process_blocks example_kernel (set_sample_rate a 4) 0
                [[1, 2, 3, 4], [5, 6, 7, 8], [9, 10, 11, 12], [13, 14, 15, 16], [17, 18, 19, 20]] of
           Some (Inr a5) \<Rightarrow>
             (case vChannels a5 of
                Some chs \<Rightarrow>
                  nFftPeriod a5 - nCounter (chs 0) \<le> 0 \<and>
                  nHead (chs 0) = 4 \<and> nDelay (chs 0) = 0 \<and> nBufSize a5 = 16 \<and>
                  cells (vData a5) (vBuffer (chs 0)) 16 =
                    [17, 18, 19, 20, 5, 6, 7, 8, 9, 10, 11, 12, 13, 14, 15, 16] \<and>
                  spec_fft_signal a5 (chs 0) = [5, 6, 7, 8] \<and>
                  (case process_prepare a5 (chs 0) of
                     Inr mem \<Rightarrow> cells mem (vSigRe a5) 4 = [17, 18, 19, 20]
                   | Inl e \<Rightarrow> False) \<and>
                  (case process example_kernel a5 0 [21] of
                     Some (Inr a6) \<Rightarrow> cells (vData a6) (vSigRe a6) 4 = [17, 18, 19, 20]
                   | _ \<Rightarrow> False)
              | None \<Rightarrow> False)
         | _ \<Rightarrow> False)
    | _ \<Rightarrow> False)"
  by code_simp

section \<open>Analyzer: a call of \<open>process\<close> that never returns\<close>

text \<open>
  A set of states that a round of the loop maps into itself without consuming a sample
  keeps the loop running forever.
\<close>

lemma process_loop_spins_aux:
  assumes ne: "inp \<noteq> []"
    and step: "\<And>a. a \<in> S \<Longrightarrow> \<exists>a'\<in>S. process_round K channel a inp = Inr (a', inp)"
    and ret: "process_loop K' channel' a' inp' = Some y"
  shows "\<not> (K' = K \<and> channel' = channel \<and> inp' = inp \<and> a' \<in> S)"
proof (rule process_loop.raw_induct
    [where P = "\<lambda>K' ch a' inp' y. \<not> (K' = K \<and> ch = channel \<and> inp' = inp \<and> a' \<in> S)", OF _ ret])
  fix loop :: "dsp_kernel \<Rightarrow> nat \<Rightarrow> Analyzer \<Rightarrow> real list \<Rightarrow> (fault + Analyzer) option"
  fix K1 ch1 a1 inp1 y1
  assume IH: "\<And>K' ch a' inp' y. loop K' ch a' inp' = Some y \<Longrightarrow>
      \<not> (K' = K \<and> ch = channel \<and> inp' = inp \<and> a' \<in> S)"
  assume body: "(if 0 < length inp1
      then case process_round K1 ch1 a1 inp1 of
             Inl e \<Rightarrow> Some (Inl e)
           | Inr (a', inp') \<Rightarrow> loop K1 ch1 a' inp'
      else Some (Inr a1)) = Some y1"
  show "\<not> (K1 = K \<and> ch1 = channel \<and> inp1 = inp \<and> a1 \<in> S)"
  proof
    assume h: "K1 = K \<and> ch1 = channel \<and> inp1 = inp \<and> a1 \<in> S"
    with step obtain a2 where a2: "a2 \<in> S" and r: "process_round K channel a1 inp = Inr (a2, inp)"
      by blast
    from body h ne r have "loop K channel a2 inp = Some y1" by simp
    from IH[OF this] a2 show False by simp
  qed
qed

lemma process_loop_spins:
  assumes "inp \<noteq> []"
    and "\<And>a. a \<in> S \<Longrightarrow> \<exists>a'\<in>S. process_round K channel a inp = Inr (a', inp)"
    and "a \<in> S"
  shows "process_loop K channel a inp = None"
proof (cases "process_loop K channel a inp")
  case None
  then show ?thesis .
next
  case (Some y)
  from process_loop_spins_aux[OF assms(1,2) Some] assms(3) show ?thesis by simp
qed

text \<open>An access inside the block succeeds, and a store leaves the size of the block.\<close>

lemma rd_ok:
  "0 \<le> p \<Longrightarrow> 0 \<le> n \<Longrightarrow> p + n \<le> b_size mem \<Longrightarrow> \<exists>xs. rd mem p n = Inr xs \<and> length xs = nat n"
  by (simp add: rd_def)

lemma wr_ok:
  "0 \<le> p \<Longrightarrow> p + int (length xs) \<le> b_size mem \<Longrightarrow>
   \<exists>mem'. wr mem p xs = Inr mem' \<and> b_size mem' = b_size mem"
  by (simp add: wr_def Let_def)

lemma mul3_ok:
  assumes "0 \<le> n" "0 \<le> d" "d + n \<le> b_size mem" "0 \<le> x" "x + n \<le> b_size mem"
    "0 \<le> y" "y + n \<le> b_size mem"
  shows "\<exists>mem'. mul3 mem d mem x mem y n = Inr mem' \<and> b_size mem' = b_size mem"
proof -
  from rd_ok[of x n mem] assms obtain xs where xs: "rd mem x n = Inr xs" "length xs = nat n" by auto
  from rd_ok[of y n mem] assms obtain ys where ys: "rd mem y n = Inr ys" "length ys = nat n" by auto
  from wr_ok[of d "map2 (*) xs ys" mem] assms xs ys show ?thesis
    by (simp add: mul3_def bindE_def)
qed

lemma fill_zero_ok:
  assumes "0 \<le> n" "0 \<le> d" "d + n \<le> b_size mem"
  shows "\<exists>mem'. fill_zero mem d n = Inr mem' \<and> b_size mem' = b_size mem"
  using wr_ok[of d "replicate (nat n) 0" mem] assms by (simp add: fill_zero_def)

lemma pcomplex_r2c_ok:
  assumes "0 \<le> n" "0 \<le> d" "d + 2 * n \<le> b_size mem" "0 \<le> x" "x + n \<le> b_size mem"
  shows "\<exists>mem'. pcomplex_r2c mem d mem x n = Inr mem' \<and> b_size mem' = b_size mem"
proof -
  from rd_ok[of x n mem] assms obtain xs where xs: "rd mem x n = Inr xs" "length xs = nat n" by auto
  have "length (concat (map (\<lambda>v. [v, 0]) xs)) = 2 * length xs"
    by (induction xs) simp_all
  with wr_ok[of d "concat (map (\<lambda>v. [v, 0]) xs)" mem] assms xs show ?thesis
    by (simp add: pcomplex_r2c_def bindE_def)
qed

lemma packed_direct_fft_ok:
  assumes "0 \<le> d" "d + 2 * 2 ^ r \<le> b_size mem"
  shows "\<exists>mem'. packed_direct_fft K mem d mem d r = Inr mem' \<and> b_size mem' = b_size mem"
proof -
  from rd_ok[of d "2 * 2 ^ r" mem] assms obtain xs where xs: "rd mem d (2 * 2 ^ r) = Inr xs" by auto
  from wr_ok[of d "map (k_packed_direct_fft K r xs) [0..<2 * 2 ^ r]" mem] assms xs show ?thesis
    by (simp add: packed_direct_fft_def bindE_def)
qed

lemma pcomplex_mod_ok:
  assumes "0 \<le> n" "0 \<le> d" "d + 2 * n \<le> b_size mem"
  shows "\<exists>mem'. pcomplex_mod K mem d mem d n = Inr mem' \<and> b_size mem' = b_size mem"
proof -
  from rd_ok[of d "2 * n" mem] assms obtain xs where xs: "rd mem d (2 * n) = Inr xs" by auto
  from wr_ok[of d "map (\<lambda>i. k_sqrtf K ((xs ! (2 * i)) * (xs ! (2 * i)) +
                             (xs ! (2 * i + 1)) * (xs ! (2 * i + 1)))) [0..<nat n]" mem] assms xs
  show ?thesis by (simp add: pcomplex_mod_def bindE_def)
qed

lemma mix2_ok:
  assumes "0 \<le> n" "0 \<le> d" "d + n \<le> b_size mem" "0 \<le> x" "x + n \<le> b_size mem"
  shows "\<exists>mem'. mix2 mem d mem x k1 k2 n = Inr mem' \<and> b_size mem' = b_size mem"
proof -
  from rd_ok[of d n mem] assms obtain xs where xs: "rd mem d n = Inr xs" "length xs = nat n" by auto
  from rd_ok[of x n mem] assms obtain ys where ys: "rd mem x n = Inr ys" "length ys = nat n" by auto
  from wr_ok[of d "map2 (\<lambda>v w. v * k1 + w * k2) xs ys" mem] assms xs ys show ?thesis
    by (simp add: mix2_def bindE_def)
qed

lemma spinning_fft:
  assumes g: "nRank a = 2" "nBufSize a = 16" "b_size (vData a) = 40" "vSigRe a = 0"
      "vFftReIm a = 4" "vWindow a = 12" "nHead c = 0" "nDelay c = 0" "vBuffer c = 20" "vAmp c = 36"
  shows "\<exists>mem. process_fft K a c = Inr (a\<lparr>vData := mem\<rparr>) \<and> b_size mem = 40"
proof -
  from mul3_ok[of 4 0 "vData a" 20 12] g obtain m1 where
    m1: "mul3 (vData a) 0 (vData a) 20 (vData a) 12 4 = Inr m1" "b_size m1 = 40" by auto
  from mul3_ok[of 4 0 m1 20 12] m1 obtain m2 where
    m2: "mul3 m1 0 m1 20 m1 12 4 = Inr m2" "b_size m2 = 40" by auto
  have prep: "process_prepare a c = Inr m2"
    using g m1 m2 by (simp add: process_prepare_def Let_def bindE_def)
  from pcomplex_r2c_ok[of 4 4 m2 0] m2 obtain m3 where
    m3: "pcomplex_r2c m2 4 m2 0 4 = Inr m3" "b_size m3 = 40" by auto
  from packed_direct_fft_ok[of 4 2 m3 K] m3 obtain m4 where
    m4: "packed_direct_fft K m3 4 m3 4 2 = Inr m4" "b_size m4 = 40" by auto
  from pcomplex_mod_ok[of 3 4 m4 K] m4 obtain m5 where
    m5: "pcomplex_mod K m4 4 m4 4 3 = Inr m5" "b_size m5 = 40" by auto
  from mix2_ok[of 3 36 m5 4 "1 - fTau a" "fTau a"] m5 obtain m6 where
    m6: "mix2 m5 36 m5 4 (1 - fTau a) (fTau a) 3 = Inr m6" "b_size m6 = 40" by auto
  have "process_fft K a c = Inr (a\<lparr>vData := m6\<rparr>)"
    using g prep m3 m4 m5 m6 by (simp add: process_fft_def Let_def bindE_def)
  with m6(2) show ?thesis by blast
qed

lemma spinning_round:
  assumes "a \<in> spinning"
  shows "\<exists>a'\<in>spinning. process_round K 0 a inp = Inr (a', inp)"
proof -
  from assms obtain chs where chs: "vChannels a = Some chs"
    and g: "nRank a = 2" "nBufSize a = 16" "b_size (vData a) = 40" "vSigRe a = 0"
      "vFftReIm a = 4" "vWindow a = 12" "nHead (chs 0) = 0" "nDelay (chs 0) = 0"
      "vBuffer (chs 0) = 20" "vAmp (chs 0) = 36"
    and z: "nFftPeriod a = 0" "nCounter (chs 0) = 0"
    by (auto simp: spinning_def)
  from spinning_fft[OF g, of K] obtain m where
    f: "process_fft K a (chs 0) = Inr (a\<lparr>vData := m\<rparr>)" and m: "b_size m = 40" by blast
  from fill_zero_ok[of 4 36 "vData a"] g obtain m' where
    amp: "fill_zero (vData a) 36 4 = Inr m'" and m': "b_size m' = 40" by auto
  have same: "chs(0 := (chs 0)\<lparr>nCounter := 0\<rparr>) = chs"
    using z by (auto simp: fun_eq_iff)
  consider (frozen) "bFreeze (chs 0)"
    | (fft) "\<not> bFreeze (chs 0)" "bActive a \<and> ch_bActive (chs 0)"
    | (idle) "\<not> bFreeze (chs 0)" "\<not> (bActive a \<and> ch_bActive (chs 0))"
    by blast
  then show ?thesis
  proof cases
    case frozen
    then have "process_round K 0 a inp = Inr (a, inp)"
      using chs g z same by (simp add: process_round_def Let_def bindE_def)
    with assms show ?thesis by blast
  next
    case idle
    then have "process_round K 0 a inp = Inr (a\<lparr>vData := m'\<rparr>, inp)"
      using chs g z same amp by (auto simp add: process_round_def Let_def bindE_def)
    moreover have "a\<lparr>vData := m'\<rparr> \<in> spinning"
      using chs g z m' by (simp add: spinning_def)
    ultimately show ?thesis by blast
  next
    case fft
    then have "process_round K 0 a inp = Inr (a\<lparr>vData := m\<rparr>, inp)"
      using chs g z same f by (simp add: process_round_def Let_def bindE_def)
    moreover have "a\<lparr>vData := m\<rparr> \<in> spinning"
      using chs g z m by (simp add: spinning_def)
    ultimately show ?thesis by blast
  qed
qed

lemma started_spinning:
  "\<exists>a'. reconfigure K (started (init 16 True (construct e w) 1 2 12 1)) = Inr a' \<and> a' \<in> spinning"
  by (simp add: started_def init_def construct_def destroy_def float_div_to_size_def bindE_def
      ALIGN_SIZE_def R_ALL_def Let_def reconfigure_def update_envelope_def clear_analysis_def
      update_window_def update_reactivity_def update_counters_def each_channel_def
      reverse_noise_def window_def mul_k2_def fill_zero_def rd_def wr_def counter_step_def
      spinning_def no_block_def)

text \<open>
  C9. The claim is that every call of \<^verbatim>\<open>Analyzer::process\<close> and of
  \<^verbatim>\<open>Oscilloscope::process\<close> returns. \<^verbatim>\<open>nFftPeriod\<close> is the sample rate divided by the
  refresh rate, truncated; while it is 0 the loop of \<^verbatim>\<open>Analyzer::process\<close> takes the
  branch of a due FFT in every round (\<^verbatim>\<open>to_process = nFftPeriod - c->nCounter <= 0\<close>),
  which subtracts 0 from the counter and consumes no sample. After \<open>init\<close> alone the
  sample rate is still 0: for every kernel, every selector of the constructor and every
  sample, the call \<^verbatim>\<open>process(0, in, 1)\<close> never returns.
\<close>

theorem process_spins_without_sample_rate:
  "process K (started (init 16 True (construct e w) 1 2 12 1)) 0 [x] = None"
proof -
  define a where "a = started (init 16 True (construct e w) 1 2 12 1)"
  from started_spinning[of K e w]
  obtain a' where r: "reconfigure K a = Inr a'" and s: "a' \<in> spinning"
    unfolding a_def by blast
  have v: "vChannels a \<noteq> None" "\<not> 0 \<ge> nChannels a"
    unfolding a_def
    by (simp_all add: started_def init_def construct_def destroy_def float_div_to_size_def bindE_def Let_def)
  have "process_loop K 0 a' [x] = None"
    by (rule process_loop_spins[where S = spinning]) (simp_all add: spinning_round s)
  with r v show ?thesis
    unfolding a_def[symmetric] by (simp add: process_def)
qed

section \<open>Analyzer: the bounds of the head, the counter and the delay\<close>

text \<open>
  The counter of a channel starts at the channel's delay, which may be above the FFT
  period, and the head of a ring is wrapped by the store after the one that fills the
  ring: with two channels, rank 4, a ring of 16 cells and an FFT every 4 samples, after
  one call with 16 samples for channel 0 the head of channel 0 is 16, and the counter and
  the delay of channel 1 are 8.
\<close>

lemma process_leaves_counter_above_period:
  "(case init 16 True (construct 0 0) 2 4 8 1 of
      Inr (ok, a) \<Rightarrow>
        (case process example_kernel (set_sample_rate a 4) 0 (map real_of_int [1..16]) of
           Some (Inr a') \<Rightarrow>
             (case vChannels a' of
                Some chs \<Rightarrow>
                  nReconfigure a' = {} \<and> nBufSize a' = 16 \<and> nRank a' = 4 \<and> nFftPeriod a' = 4 \<and>
                  nHead (chs 0) = 16 \<and> nCounter (chs 1) = 8 \<and> nDelay (chs 1) = 8
              | None \<Rightarrow> False)
         | _ \<Rightarrow> False)
    | _ \<Rightarrow> False)"
  by code_simp

text \<open>
  C6. The claim is that \<open>0 \<le> head < B\<close>, \<open>0 \<le> counter \<le> fft_period\<close> and
  \<open>delay \<le> B - N\<close> hold in every state. The size \<open>B\<close> of a ring is computed from the
  maximal rank, the maximal sample rate and the minimal refresh rate, and a store is cut
  to the samples at hand and to \<open>N = 2^R\<close>, not to \<open>B\<close>. After
  \<^verbatim>\<open>init(1, 8, 100, 10.0f)\<close> the ring has 32 cells, \<open>N\<close> is 256, and the refresh rate is
  still the constructor's 1.0, so that \<^verbatim>\<open>set_sample_rate(100)\<close> gives an FFT period of 100.
  The call \<^verbatim>\<open>process(0, in, 100)\<close> with the samples 1 to 100 stores 32 samples up to the
  end of the ring and the other 68 from the start of the ring on: the head is 68 with
  \<open>B = 32\<close>, the ring holds the samples 33 to 64, and the samples 65 to 100 are in the
  first 36 cells of \<^verbatim>\<open>vAmp\<close>, which follows the ring in the block. The delay, 0, is above
  \<open>B - N = -224\<close>.
\<close>

theorem process_stores_past_the_ring:
  "(case init 16 True (construct 0 0) 1 8 100 10 of
      Inr (ok, a) \<Rightarrow>
        (case process example_kernel (set_sample_rate a 100) 0 (map real_of_int [1..100]) of
           Some (Inr a') \<Rightarrow>
             (case vChannels a' of
                Some chs \<Rightarrow>
                  nReconfigure a' = {} \<and> nBufSize a' = 32 \<and> nRank a' = 8 \<and> nFftPeriod a' = 100 \<and>
                  nHead (chs 0) = 68 \<and> nCounter (chs 0) = 100 \<and> nDelay (chs 0) = 0 \<and>
                  vAmp (chs 0) = vBuffer (chs 0) + nBufSize a' \<and>
                  cells (vData a') (vBuffer (chs 0)) 32 = map real_of_int [33..64] \<and>
                  cells (vData a') (vAmp (chs 0)) 36 = map real_of_int [65..100]
              | None \<Rightarrow> False)
         | _ \<Rightarrow> False)
    | _ \<Rightarrow> False)"
  by code_simp

section \<open>Oscilloscope: the division by the oversampling factor\<close>

lemma no_div_fault_bindE:
  assumes "no_div_fault m r" and "\<And>x. nOversampling x = m \<Longrightarrow> no_div_fault m (f x)"
  shows "no_div_fault m (bindE r f)"
  using assms by (cases r) (simp_all add: no_div_fault_def bindE_def)

lemma no_div_fault_Inl [simp]: "no_div_fault m (Inl e) \<longleftrightarrow> e \<noteq> DivisionByZero"
  by (simp add: no_div_fault_def)

lemma no_div_fault_Inr [simp]: "no_div_fault m (Inr osc) \<longleftrightarrow> nOversampling osc = m"
  by (simp add: no_div_fault_def)

lemma nOversampling_advance_sweep [simp]: "nOversampling (advance_sweep osc n) = nOversampling osc"
  by (simp add: advance_sweep_def)

lemma nOversampling_advance_buffer [simp]: "nOversampling (advance_buffer osc n) = nOversampling osc"
  by (simp add: advance_buffer_def)

lemma copy_to_sweep_no_div: "nOversampling osc = m \<Longrightarrow> no_div_fault m (copy_to_sweep osc x c)"
  by (simp add: copy_to_sweep_def buf_copy_def bindE_def no_div_fault_def split: option.splits)

lemma sweep_from_the_past_no_div:
  "nOversampling osc = m \<Longrightarrow> no_div_fault m (sweep_from_the_past osc)"
  unfolding sweep_from_the_past_def Let_def
  by (auto intro!: no_div_fault_bindE copy_to_sweep_no_div)

lemma acquire_sample_no_div:
  "nOversampling osc = m \<Longrightarrow> no_div_fault m (acquire_sample K head n osc)"
  unfolding acquire_sample_def Let_def
  by (auto intro!: sweep_from_the_past_no_div split: option.splits)

lemma acquire_samples_no_div:
  "nOversampling osc = m \<Longrightarrow> no_div_fault m (acquire_samples K head ns osc)"
proof (induction ns arbitrary: osc)
  case Nil
  then show ?case by simp
next
  case (Cons n ns)
  show ?case
    unfolding acquire_samples.simps
    by (rule no_div_fault_bindE[OF acquire_sample_no_div[OF Cons.prems]]) (rule Cons.IH)
qed

lemma ingest_no_div:
  assumes "nOversampling osc \<noteq> 0"
  shows "case ingest K osc src count of
           Inl e \<Rightarrow> e \<noteq> DivisionByZero
         | Inr (osc', to_store, to_do) \<Rightarrow> nOversampling osc' = nOversampling osc"
  using assms by (simp add: ingest_def Let_def split: option.splits prod.splits)

lemma ingest_zero: "nOversampling osc = 0 \<Longrightarrow> ingest K osc src count = Inl DivisionByZero"
  by (simp add: ingest_def Let_def)

lemma sweep_copy_no_div: "nOversampling osc = m \<Longrightarrow> no_div_fault m (sweep_copy osc)"
  unfolding sweep_copy_def Let_def
  by (auto intro!: no_div_fault_bindE copy_to_sweep_no_div)

lemma nOversampling_sweep_finish [simp]: "nOversampling (sweep_finish osc) = nOversampling osc"
  by (simp add: sweep_finish_def Let_def)

lemma osc_round_no_div:
  assumes "nOversampling osc \<noteq> 0"
  shows "case osc_round K osc src count of
           Inl e \<Rightarrow> e \<noteq> DivisionByZero
         | Inr (osc', count') \<Rightarrow> nOversampling osc' = nOversampling osc"
proof (cases "enState osc")
  case OSC_STATE_ACQUIRING
  show ?thesis
  proof (cases "ingest K osc src count")
    case (Inl e)
    then show ?thesis
      using ingest_no_div[OF assms, of K src count] OSC_STATE_ACQUIRING
      by (simp add: osc_round_def bindE_def)
  next
    case (Inr r)
    obtain osc1 to_store to_do where r: "r = (osc1, to_store, to_do)" by (cases r) auto
    have m: "nOversampling osc1 = nOversampling osc"
      using ingest_no_div[OF assms, of K src count] Inr r by simp
    have "no_div_fault (nOversampling osc)
            (acquire_samples K (buffer_nHead (sBufferParams osc)) [0..uint to_store - 1] osc1)"
      by (rule acquire_samples_no_div[OF m])
    then show ?thesis
      using OSC_STATE_ACQUIRING Inr r
      by (simp add: osc_round_def bindE_def no_div_fault_def split: sum.splits)
  qed
next
  case OSC_STATE_SWEEPING
  have first: "no_div_fault (nOversampling osc) (sweep_copy osc)"
    by (rule sweep_copy_no_div) simp
  show ?thesis
  proof (cases "sweep_copy osc")
    case (Inl e)
    then show ?thesis using first OSC_STATE_SWEEPING by (simp add: osc_round_def bindE_def)
  next
    case (Inr osc1)
    then have m: "nOversampling osc1 = nOversampling osc" using first by simp
    then have "nOversampling osc1 \<noteq> 0" using assms by simp
    from ingest_no_div[OF this, of K src count] show ?thesis
      using Inr m OSC_STATE_SWEEPING
      by (simp add: osc_round_def bindE_def split: sum.splits prod.splits)
  qed
qed

lemma osc_round_zero:
  assumes "nOversampling osc = 0"
  shows "\<exists>e. osc_round K osc src count = Inl e"
proof (cases "enState osc")
  case OSC_STATE_ACQUIRING
  then show ?thesis by (simp add: osc_round_def ingest_zero[OF assms] bindE_def)
next
  case OSC_STATE_SWEEPING
  have first: "no_div_fault 0 (sweep_copy osc)"
    by (rule sweep_copy_no_div) (rule assms)
  show ?thesis
  proof (cases "sweep_copy osc")
    case (Inl e)
    then show ?thesis using OSC_STATE_SWEEPING by (simp add: osc_round_def bindE_def)
  next
    case (Inr osc1)
    then have "nOversampling osc1 = 0" using first by simp
    then show ?thesis
      using Inr OSC_STATE_SWEEPING by (simp add: osc_round_def bindE_def ingest_zero)
  qed
qed

lemma osc_loop_no_div:
  assumes ret: "osc_loop K osc src count = Some r" and m: "nOversampling osc \<noteq> 0"
  shows "r \<noteq> Inl DivisionByZero"
proof -
  have "nOversampling osc \<noteq> 0 \<longrightarrow> r \<noteq> Inl DivisionByZero"
  proof (rule osc_loop.raw_induct[where P = "\<lambda>K osc src count r.
            nOversampling osc \<noteq> 0 \<longrightarrow> r \<noteq> Inl DivisionByZero", OF _ ret])
    fix loop :: "('a, 'b) collaborators \<Rightarrow> ('a, 'b) Oscilloscope \<Rightarrow> real list \<Rightarrow> size_t \<Rightarrow>
                 (fault + ('a, 'b) Oscilloscope) option"
    fix K osc src count r
    assume IH: "\<And>K osc src count r. loop K osc src count = Some r \<Longrightarrow>
                  nOversampling osc \<noteq> 0 \<longrightarrow> r \<noteq> Inl DivisionByZero"
    assume body: "(if count > 0 then
                     (case osc_round K osc src count of
                        Inl e \<Rightarrow> Some (Inl e)
                      | Inr (osc', count') \<Rightarrow> loop K osc' src count')
                   else Some (Inr osc)) = Some r"
    show "nOversampling osc \<noteq> 0 \<longrightarrow> r \<noteq> Inl DivisionByZero"
    proof
      assume m: "nOversampling osc \<noteq> 0"
      show "r \<noteq> Inl DivisionByZero"
      proof (cases "count > 0")
        case False
        then show ?thesis using body by auto
      next
        case True
        show ?thesis
        proof (cases "osc_round K osc src count")
          case (Inl e)
          then show ?thesis using body True osc_round_no_div[OF m, of K src count] by auto
        next
          case (Inr p)
          obtain osc' count' where p: "p = (osc', count')" by (cases p) auto
          have "nOversampling osc' \<noteq> 0"
            using osc_round_no_div[OF m, of K src count] Inr p m by simp
          moreover have "loop K osc' src count' = Some r" using body True Inr p by simp
          ultimately show ?thesis using IH by blast
        qed
      qed
    qed
  qed
  then show ?thesis using m by simp
qed

lemma osc_process_no_div:
  "nOversampling osc \<noteq> 0 \<Longrightarrow> osc_process K osc src \<noteq> Some (Inl DivisionByZero)"
  using osc_loop_no_div[of K osc src "of_nat (length src)"]
  by (auto simp: osc_process_def Let_def split: option.splits sum.splits)

lemma count_positive:
  "src \<noteq> [] \<Longrightarrow> length src < 2 ^ 64 \<Longrightarrow> (of_nat (length src) :: size_t) > 0"
  using nat_dvd_not_less[of "length src" "2 ^ 64"]
  by (auto simp add: word_greater_zero_iff word_of_nat_eq_0_iff)

lemma osc_process_zero:
  assumes "nOversampling osc = 0" "enState osc = OSC_STATE_ACQUIRING" "src \<noteq> []" "length src < 2 ^ 64"
  shows "osc_process K osc src = Some (Inl DivisionByZero)"
  using assms count_positive[of src]
  by (simp add: osc_process_def osc_loop.simps[of K osc] osc_round_def ingest_zero bindE_def)

lemma example_oversampling: "nOversampling (projr (example_oscilloscope 1 3)) = 1"
  by code_simp

text \<open>
  Claim C10 (a call of \<^verbatim>\<open>process\<close> with a positive count before the first
  \<^verbatim>\<open>update_settings\<close> divides by zero; the division is defined only when the oversampling
  factor is at least 1). The oscilloscope the constructor builds, also after \<^verbatim>\<open>init\<close>,
  answers every non-empty block with the fault of the division by zero. Whatever the
  state, a round of the loop with the factor 0 ends in a fault, and with a factor that is
  not 0 no call of \<^verbatim>\<open>process\<close> ends in the fault of a division by zero.
\<close>

theorem process_divides_by_the_oversampling:
  "(src \<noteq> [] \<and> length src < 2 ^ 64 \<longrightarrow>
      osc_process K (snd (osc_init alloc ready (osc_construct t0 o0))) src = Some (Inl DivisionByZero))
   \<and> (nOversampling osc = 0 \<longrightarrow> (\<exists>e. osc_round K osc src' count = Inl e))
   \<and> (nOversampling osc \<noteq> 0 \<longrightarrow> osc_process K osc src' \<noteq> Some (Inl DivisionByZero))"
proof (intro conjI impI)
  assume "src \<noteq> [] \<and> length src < 2 ^ 64"
  moreover have "nOversampling (snd (osc_init alloc ready (osc_construct t0 o0))) = 0"
    "enState (snd (osc_init alloc ready (osc_construct t0 o0))) = OSC_STATE_ACQUIRING"
    by (simp_all add: osc_init_def osc_construct_def split: option.splits prod.splits)
  ultimately show "osc_process K (snd (osc_init alloc ready (osc_construct t0 o0))) src = Some (Inl DivisionByZero)"
    by (simp add: osc_process_zero)
next
  assume "nOversampling osc = 0"
  then show "\<exists>e. osc_round K osc src' count = Inl e" by (rule osc_round_zero)
next
  assume "nOversampling osc \<noteq> 0"
  then show "osc_process K osc src' \<noteq> Some (Inl DivisionByZero)" by (rule osc_process_no_div)
qed

theorem process_divides_by_the_oversampling_witness:
  "osc_process example_collaborators
     (snd (osc_init (Some (\<lambda>i. 0, \<lambda>i. 0)) True (osc_construct idle_trigger ()))) [1]
     = Some (Inl DivisionByZero)
   \<and> (\<exists>e. osc_round example_collaborators (osc_construct idle_trigger ()) [1] 1 = Inl e)
   \<and> osc_process example_collaborators (projr (example_oscilloscope 1 3)) [1]
       \<noteq> Some (Inl DivisionByZero)"
proof -
  have z: "nOversampling (osc_construct idle_trigger ()) = 0"
    by (simp add: osc_construct_def)
  show ?thesis
    using process_divides_by_the_oversampling[of "[1]" example_collaborators
            "Some (\<lambda>i. 0, \<lambda>i. 0)" True idle_trigger "()" "osc_construct idle_trigger ()" "[1]" 1]
          process_divides_by_the_oversampling[of "[1]" example_collaborators
            "Some (\<lambda>i. 0, \<lambda>i. 0)" True idle_trigger "()" "projr (example_oscilloscope 1 3)" "[1]" 1]
    by (simp add: z example_oversampling)
qed

lemma example_process_returns:
  "sweep_view 1 (osc_run example_collaborators (example_oscilloscope 1 3) [[1]])
     = Some (Inr (OSC_STATE_SWEEPING, False, 1, 1, 0, [0]))"
  by code_simp

section \<open>Oscilloscope: a block of samples that does not fire the trigger\<close>

lemma edge_sample_quiet:
  "et_hold t = 0 \<Longrightarrow> x \<le> 0 \<Longrightarrow> edge_sample t x = t\<lparr>et_prev := x, et_state := TRG_STATE_WAITING\<rparr>"
  by (simp add: edge_sample_def)

lemma acquire_sample_quiet:
  assumes "vCaptureBuffer osc = Some cap" and "et_hold (sTrigger osc) = 0"
    and "uint head + n < uint CAPTURE_BUFFER_LIMIT_SIZE" and "cap (uint head + n) \<le> 0"
  shows "acquire_sample example_collaborators head n osc =
           Inr (osc\<lparr>sTrigger := (sTrigger osc)
                  \<lparr>et_prev := cap (uint head + n), et_state := TRG_STATE_WAITING\<rparr>\<rparr>)"
  using assms
  by (simp add: acquire_sample_def example_collaborators_def Let_def edge_sample_quiet)

lemma acquire_samples_quiet:
  assumes "vCaptureBuffer osc = Some cap" and "et_hold (sTrigger osc) = 0"
    and "\<forall>n \<in> set ns. uint head + n < uint CAPTURE_BUFFER_LIMIT_SIZE \<and> cap (uint head + n) = 0"
    and "ns \<noteq> []"
  shows "acquire_samples example_collaborators head ns osc =
           Inr (osc\<lparr>sTrigger := (sTrigger osc)\<lparr>et_prev := 0, et_state := TRG_STATE_WAITING\<rparr>\<rparr>)"
  using assms
proof (induction ns arbitrary: osc)
  case Nil
  then show ?case by simp
next
  case (Cons n ns)
  let ?osc = "osc\<lparr>sTrigger := (sTrigger osc)\<lparr>et_prev := 0, et_state := TRG_STATE_WAITING\<rparr>\<rparr>"
  have one: "acquire_sample example_collaborators head n osc = Inr ?osc"
    using acquire_sample_quiet[of osc cap head n] Cons.prems by simp
  show ?case
  proof (cases "ns = []")
    case True
    then show ?thesis by (simp add: one bindE_def)
  next
    case False
    have "acquire_samples example_collaborators head ns ?osc =
            Inr (?osc\<lparr>sTrigger := (sTrigger ?osc)\<lparr>et_prev := 0, et_state := TRG_STATE_WAITING\<rparr>\<rparr>)"
      by (rule Cons.IH) (use Cons.prems False in simp_all)
    then show ?thesis by (simp add: one bindE_def)
  qed
qed

lemma uint_count: "n \<le> 196608 \<Longrightarrow> uint (of_nat n :: size_t) = int n"
  by (simp add: unsigned_of_nat take_bit_nat_eq_self)

lemma quiet_block:
  fixes osc :: "(edge_trigger, unit) Oscilloscope"
  assumes st: "enState osc = OSC_STATE_ACQUIRING" and m: "nOversampling osc = 1"
    and cap: "vCaptureBuffer osc = Some cap" and hold: "et_hold (sTrigger osc) = 0"
    and n: "0 < n" and fit: "uint (buffer_nHead (sBufferParams osc)) + int n \<le> 196608"
  shows "then_process example_collaborators (Some (Inr osc)) (replicate n 0) =
    Some (Inr (osc\<lparr>vCaptureBuffer := Some (\<lambda>i.
                       if uint (buffer_nHead (sBufferParams osc)) \<le> i
                          \<and> i < uint (buffer_nHead (sBufferParams osc)) + int n
                       then 0 else cap i),
                    sTrigger := (sTrigger osc)\<lparr>et_prev := 0, et_state := TRG_STATE_WAITING\<rparr>,
                    sBufferParams := (sBufferParams osc)
                      \<lparr>buffer_nHead := (buffer_nHead (sBufferParams osc) + of_nat n)
                                        mod CAPTURE_BUFFER_LIMIT_SIZE\<rparr>\<rparr>))"
proof -
  let ?K = example_collaborators
  let ?head = "buffer_nHead (sBufferParams osc)"
  let ?count = "of_nat n :: size_t"
  let ?cap = "\<lambda>i. if uint ?head \<le> i \<and> i < uint ?head + int n then 0 else cap i"
  let ?osc1 = "osc\<lparr>vCaptureBuffer := Some ?cap\<rparr>"
  have "0 \<le> uint ?head" by simp
  then have n_le: "n \<le> 196608" using fit by linarith
  have uc: "uint ?count = int n" by (rule uint_count[OF n_le])
  have pos: "?count > 0"
    using n uc by (simp add: word_less_def)
  have head_le: "?head \<le> CAPTURE_BUFFER_LIMIT_SIZE"
    using fit by (simp add: word_le_def CAPTURE_BUFFER_LIMIT_SIZE_def)
  have rem: "uint (CAPTURE_BUFFER_LIMIT_SIZE - ?head) = 196608 - uint ?head"
    using head_le by (simp add: uint_minus_simple_alt CAPTURE_BUFFER_LIMIT_SIZE_def)
  have store: "\<not> ?count > CAPTURE_BUFFER_LIMIT_SIZE - ?head"
    using fit by (simp add: word_less_def rem uc)
  have buf: "(\<lambda>i. if uint ?head \<le> i \<and> i < uint ?head + int (length (replicate n (0::real)))
                  then replicate n (0::real) ! nat (i - uint ?head) else cap i) = ?cap"
    by (rule ext) auto
  have ing: "ingest ?K osc (replicate n 0) ?count = Inr (?osc1, ?count, ?count)"
    using store fit buf
    by (simp add: ingest_def Let_def m cap uc example_collaborators_def CAPTURE_BUFFER_LIMIT_SIZE_def)
  have acq: "acquire_samples ?K ?head [0..uint ?count - 1] ?osc1 =
      Inr (?osc1\<lparr>sTrigger := (sTrigger ?osc1)\<lparr>et_prev := 0, et_state := TRG_STATE_WAITING\<rparr>\<rparr>)"
  proof (rule acquire_samples_quiet)
    show "vCaptureBuffer ?osc1 = Some ?cap" by simp
    show "et_hold (sTrigger ?osc1) = 0" using hold by simp
    show "\<forall>k \<in> set [0..uint ?count - 1].
            uint ?head + k < uint CAPTURE_BUFFER_LIMIT_SIZE \<and> ?cap (uint ?head + k) = 0"
      using fit by (auto simp: uc CAPTURE_BUFFER_LIMIT_SIZE_def)
    show "[0..uint ?count - 1] \<noteq> []" using n by (simp add: uc upto.simps)
  qed
  have round: "osc_round ?K osc (replicate n 0) ?count =
      Inr (advance_buffer (?osc1\<lparr>sTrigger := (sTrigger ?osc1)\<lparr>et_prev := 0, et_state := TRG_STATE_WAITING\<rparr>\<rparr>) ?count, 0)"
    by (simp add: osc_round_def st ing acq bindE_def)
  have loop: "osc_loop ?K osc (replicate n 0) ?count =
      Some (Inr (advance_buffer (?osc1\<lparr>sTrigger := (sTrigger ?osc1)\<lparr>et_prev := 0, et_state := TRG_STATE_WAITING\<rparr>\<rparr>) ?count))"
    using pos by (subst osc_loop.simps, simp add: round, subst osc_loop.simps, simp)
  show ?thesis
    by (simp add: then_process_def osc_process_def Let_def loop advance_buffer_def split: osc_output_mode_t.splits)
qed

section \<open>Oscilloscope: the sweep across the end of the capture ring\<close>

text \<open>
  Claim C2 (the completed sweep begins with the \<^verbatim>\<open>nPreTrigger\<close> samples before the trigger
  sample, and the trigger sample is at the offset \<^verbatim>\<open>nPreTrigger\<close>). With a pre-trigger
  and a post-trigger of two samples each, the calls of \<^verbatim>\<open>process\<close> with the blocks \<open>[-9]\<close>,
  196603 zeros, \<open>[-3, -2]\<close> and \<open>[1, 5]\<close> fire the trigger on the sample \<open>1\<close>, stored at the
  index 196606 of the ring, and the splice puts \<open>-3, -2\<close> at the head of the sweep buffer,
  as claimed; the block ends at the end of the ring, so the head of the ring is 0 again.
  The next call, with the block \<open>[6]\<close>, copies the cells 196606 and 196607 to the offsets 2
  and 3 and then, without advancing the head of the sweep buffer, the cell 0 of the ring
  to the offset 2: the sweep is complete with \<open>-9\<close>, the oldest sample of the ring, at the
  offset 2, and the trigger sample \<open>1\<close> is nowhere in it.
\<close>

theorem sweep_wrap_overwrites_trigger_sample:
  "sweep_view 4 (osc_run example_collaborators (example_oscilloscope 2 2)
      [[- 9], replicate 196603 0, [- 3, - 2], [1, 5]])
     = Some (Inr (OSC_STATE_SWEEPING, False, 2, 0, 196606, [- 3, - 2, 0, 0]))
   \<and> sweep_view 4 (osc_run example_collaborators (example_oscilloscope 2 2)
      [[- 9], replicate 196603 0, [- 3, - 2], [1, 5], [6]])
     = Some (Inr (OSC_STATE_ACQUIRING, True, 0, 1, 196608, [- 3, - 2, - 9, 5]))"
proof -
  let ?K = example_collaborators
  let ?S1 = "projr (the (osc_run ?K (example_oscilloscope 2 2) [[- 9]]))"
  let ?cap1 = "the (vCaptureBuffer ?S1)"
  let ?S2 = "?S1\<lparr>vCaptureBuffer := Some (\<lambda>i. if 1 \<le> i \<and> i < 196604 then 0 else ?cap1 i),
                  sTrigger := (sTrigger ?S1)\<lparr>et_prev := 0, et_state := TRG_STATE_WAITING\<rparr>,
                  sBufferParams := (sBufferParams ?S1)\<lparr>buffer_nHead := 196604\<rparr>\<rparr>"
  have "case osc_run ?K (example_oscilloscope 2 2) [[- 9]] of Some (Inr osc) \<Rightarrow> True | _ \<Rightarrow> False"
    by code_simp
  then have first: "then_process ?K (Some (example_oscilloscope 2 2)) [- 9] = Some (Inr ?S1)"
    by (auto simp: osc_run_def split: option.splits sum.splits)
  have st: "enState ?S1 = OSC_STATE_ACQUIRING" by code_simp
  have m: "nOversampling ?S1 = 1" by code_simp
  have hold: "et_hold (sTrigger ?S1) = 0" by code_simp
  have head: "buffer_nHead (sBufferParams ?S1) = 1" by code_simp
  have "case vCaptureBuffer ?S1 of Some cap \<Rightarrow> True | None \<Rightarrow> False" by code_simp
  then have cap: "vCaptureBuffer ?S1 = Some ?cap1" by (auto split: option.splits)
  have wrap: "(196604 :: size_t) mod CAPTURE_BUFFER_LIMIT_SIZE = 196604"
    by (simp add: CAPTURE_BUFFER_LIMIT_SIZE_def word_mod_less_divisor word_less_def)
  have lap: "then_process ?K (Some (Inr ?S1)) (replicate 196603 0) = Some (Inr ?S2)"
    using quiet_block[OF st m cap hold, of 196603] by (simp add: head wrap)
  have two: "sweep_view 4 (foldl (then_process ?K) (Some (Inr ?S2)) [[- 3, - 2], [1, 5]])
     = Some (Inr (OSC_STATE_SWEEPING, False, 2, 0, 196606, [- 3, - 2, 0, 0]))"
    by code_simp
  have three: "sweep_view 4 (foldl (then_process ?K) (Some (Inr ?S2)) [[- 3, - 2], [1, 5], [6]])
     = Some (Inr (OSC_STATE_ACQUIRING, True, 0, 1, 196608, [- 3, - 2, - 9, 5]))"
    by code_simp
  have run: "osc_run ?K (example_oscilloscope 2 2) ([- 9] # replicate 196603 0 # bs)
               = foldl (then_process ?K) (Some (Inr ?S2)) bs" for bs
  proof -
    have "osc_run ?K (example_oscilloscope 2 2) ([- 9] # replicate 196603 0 # bs)
            = foldl (then_process ?K)
                (then_process ?K (then_process ?K (Some (example_oscilloscope 2 2)) [- 9])
                   (replicate 196603 0)) bs"
      by (simp only: osc_run_def[of ?K "example_oscilloscope 2 2" "[- 9] # replicate 196603 0 # bs"]
            foldl.simps)
    also have "\<dots> = foldl (then_process ?K) (then_process ?K (Some (Inr ?S1)) (replicate 196603 0)) bs"
      by (simp only: first)
    also have "\<dots> = foldl (then_process ?K) (Some (Inr ?S2)) bs"
      by (simp only: lap)
    finally show ?thesis .
  qed
  show ?thesis
    by (simp only: run two three)
qed

section \<open>Oscilloscope: the trigger during a sweep\<close>

text \<open>
  Claim C5 (while the run-state is \<^verbatim>\<open>SWEEPING\<close> no sample is fed to the trigger and no
  trigger event is accepted). With a pre-trigger and a post-trigger of one sample each,
  the block \<open>[-1, 1]\<close> fires the trigger on its second sample: the run-state is
  \<^verbatim>\<open>SWEEPING\<close>, the trigger index 1, and the sweep buffer begins with \<open>-1\<close>. When the
  block goes on with \<open>-2, -3, -4, 2\<close>, the loop over the block feeds these samples to
  the trigger as well, the trigger fires again on the last one, and the sweep starts
  again: the trigger index is 5 and the sweep buffer begins with \<open>-4\<close>.
\<close>

theorem trigger_is_fed_while_sweeping:
  "sweep_view 1 (osc_run example_collaborators (example_oscilloscope 1 1) [[- 1, 1]])
     = Some (Inr (OSC_STATE_SWEEPING, False, 1, 2, 1, [- 1]))
   \<and> sweep_view 1 (osc_run example_collaborators (example_oscilloscope 1 1) [[- 1, 1, - 2, - 3, - 4, 2]])
     = Some (Inr (OSC_STATE_SWEEPING, False, 1, 6, 5, [- 4]))"
  by code_simp

section \<open>Oscilloscope: the end of a sweep\<close>

text \<open>
  Claim C7 (\<^verbatim>\<open>bSweepComplete\<close> becomes true when the sweep buffer has received \<^verbatim>\<open>nLimit\<close>
  samples). With a pre-trigger of one sample and a post-trigger of three, \<^verbatim>\<open>nLimit\<close> is 4.
  The calls with the blocks \<open>[-1]\<close> and \<open>[1]\<close> fire the trigger and leave one sample in
  the sweep buffer; the call with the block \<open>[5]\<close> copies the trigger sample and the cell
  of the ring that the sample \<open>5\<close> is stored in only afterwards, and the sweep is complete
  with the head of the sweep buffer at 3: three cells written, one sample after the
  trigger's.
\<close>

theorem sweep_complete_before_limit:
  "map_sum id (\<lambda>osc. uint (nLimit (sSweepParams osc))) (example_oscilloscope 1 3) = Inr 4
   \<and> sweep_view 4 (osc_run example_collaborators (example_oscilloscope 1 3) [[- 1], [1]])
     = Some (Inr (OSC_STATE_SWEEPING, False, 1, 2, 1, [- 1, 0, 0, 0]))
   \<and> sweep_view 4 (osc_run example_collaborators (example_oscilloscope 1 3) [[- 1], [1], [5]])
     = Some (Inr (OSC_STATE_ACQUIRING, True, 0, 3, 1, [- 1, 1, 0, 0]))"
  by code_simp

end
